theory Spec2Isabelle
  imports Main "HOL-Library.Word"
begin

unbundle bit_operations_syntax

section \<open>RISC-V privileged-architecture helpers (target/riscv/cpu_helper.c)\<close>

text \<open>
  The embedding follows the system-emulation, 64-bit build of the file
  (\<^verbatim>\<open>!CONFIG_USER_ONLY\<close>, \<^verbatim>\<open>TARGET_RISCV64\<close>, \<^verbatim>\<open>!TCG_OVERSIZED_GUEST\<close>):
  \<^verbatim>\<open>target_ulong\<close> and \<^verbatim>\<open>hwaddr\<close> are 64-bit words, \<^verbatim>\<open>uint32_t\<close> is a 32-bit word,
  and C's \<^verbatim>\<open>int\<close> locals that only hold small values are HOL integers.
\<close>

type_synonym target_ulong = "64 word"
type_synonym hwaddr = "64 word"
type_synonym uint32_t = "32 word"

subsection \<open>Bit layouts and field accessors\<close>

text \<open>
  Modelled from the spec: the header \<^verbatim>\<open>cpu_bits.h\<close> with the \<^verbatim>\<open>get_field\<close> and
  \<^verbatim>\<open>set_field\<close> macros and the bit masks is not under src/. The spec (section 6) fixes
  the layouts as the bit-exact RISC-V Privileged ISA positions; the two accessors read
  and write the field selected by a mask, the value aligned at the mask's lowest bit.
\<close>

definition get_field :: "target_ulong \<Rightarrow> target_ulong \<Rightarrow> target_ulong" where
  "get_field reg msk = (reg AND msk) div (msk AND NOT (push_bit 1 msk))"

definition set_field :: "target_ulong \<Rightarrow> target_ulong \<Rightarrow> target_ulong \<Rightarrow> target_ulong" where
  "set_field reg msk val =
     (reg AND NOT msk) OR ((val * (msk AND NOT (push_bit 1 msk))) AND msk)"

definition MSTATUS_UIE :: target_ulong where "MSTATUS_UIE = 0x1"
definition MSTATUS_SIE :: target_ulong where "MSTATUS_SIE = 0x2"
definition MSTATUS_MIE :: target_ulong where "MSTATUS_MIE = 0x8"
definition MSTATUS_SPIE :: target_ulong where "MSTATUS_SPIE = 0x20"
definition MSTATUS_MPIE :: target_ulong where "MSTATUS_MPIE = 0x80"
definition MSTATUS_SPP :: target_ulong where "MSTATUS_SPP = 0x100"
definition MSTATUS_MPP :: target_ulong where "MSTATUS_MPP = 0x1800"
definition MSTATUS_FS :: target_ulong where "MSTATUS_FS = 0x6000"
definition MSTATUS_MPRV :: target_ulong where "MSTATUS_MPRV = 0x20000"
definition MSTATUS_PUM :: target_ulong where "MSTATUS_PUM = 0x40000"
definition MSTATUS_SUM :: target_ulong where "MSTATUS_SUM = 0x40000"
definition MSTATUS_MXR :: target_ulong where "MSTATUS_MXR = 0x80000"
definition MSTATUS_VM :: target_ulong where "MSTATUS_VM = 0x1F000000"
definition MSTATUS64_UXL :: target_ulong where "MSTATUS64_UXL = 0x300000000"
definition MSTATUS_MTL :: target_ulong where "MSTATUS_MTL = 0x4000000000"
definition MSTATUS_MPV :: target_ulong where "MSTATUS_MPV = 0x8000000000"
definition SSTATUS_SPP :: target_ulong where "SSTATUS_SPP = 0x100"

definition HSTATUS_SPV :: target_ulong where "HSTATUS_SPV = 0x80"
definition HSTATUS_SP2P :: target_ulong where "HSTATUS_SP2P = 0x100"
definition HSTATUS_SP2V :: target_ulong where "HSTATUS_SP2V = 0x200"
definition HSTATUS_STL :: target_ulong where "HSTATUS_STL = 0x40000"

definition MIP_SSIP :: uint32_t where "MIP_SSIP = 0x2"
definition MIP_STIP :: uint32_t where "MIP_STIP = 0x20"
definition MIP_SEIP :: uint32_t where "MIP_SEIP = 0x200"
definition MIE_SSIE :: target_ulong where "MIE_SSIE = 0x2"
definition MIE_STIE :: target_ulong where "MIE_STIE = 0x20"
definition MIE_SEIE :: target_ulong where "MIE_SEIE = 0x200"

definition SATP_MODE :: target_ulong where "SATP_MODE = 0xF000000000000000"
definition SATP_PPN :: target_ulong where "SATP_PPN = 0x00000FFFFFFFFFFF"

definition PRV_U :: target_ulong where "PRV_U = 0"
definition PRV_S :: target_ulong where "PRV_S = 1"
definition PRV_H :: target_ulong where "PRV_H = 2"
definition PRV_M :: target_ulong where "PRV_M = 3"

text \<open>
  Modelled from the spec: the emulator's own constants of \<^verbatim>\<open>cpu.h\<close> and
  \<^verbatim>\<open>cpu_bits.h\<close>, which are not under src/: the two flags of the \<^verbatim>\<open>virt\<close> word
  (virt-enabled in bit 0, force-HS-exception in bit 1), the interrupt flag of
  \<^verbatim>\<open>exception_index\<close> (its top bit), the value \<^verbatim>\<open>EXCP_NONE\<close> for "no interrupt",
  the ISA letter H in \<^verbatim>\<open>misa\<close> and the feature bits, and the privilege versions.
\<close>

definition VIRT_MODE_SHIFT :: nat where "VIRT_MODE_SHIFT = 0"
definition VIRT_MODE_MASK :: target_ulong where "VIRT_MODE_MASK = push_bit VIRT_MODE_SHIFT 1"
definition VIRT_ON :: target_ulong where "VIRT_ON = 1"
definition FORCE_HS_EXCEP :: target_ulong where "FORCE_HS_EXCEP = 1"
definition FORCE_HS_EXCEP_SHIFT :: nat where "FORCE_HS_EXCEP_SHIFT = 1"
definition FORCE_HS_EXCEP_MASK :: target_ulong where
  "FORCE_HS_EXCEP_MASK = push_bit FORCE_HS_EXCEP_SHIFT 1"

definition EXCP_NONE :: int where "EXCP_NONE = - 1"
definition RISCV_EXCP_INT_FLAG :: uint32_t where "RISCV_EXCP_INT_FLAG = 0x80000000"
definition RISCV_EXCP_INT_MASK :: uint32_t where "RISCV_EXCP_INT_MASK = 0x7fffffff"

definition RVH :: target_ulong where "RVH = push_bit 7 1"
definition RISCV_FEATURE_MMU :: nat where "RISCV_FEATURE_MMU = 0"
definition RISCV_FEATURE_PMP :: nat where "RISCV_FEATURE_PMP = 1"

definition PRIV_VERSION_1_09_1 :: target_ulong where "PRIV_VERSION_1_09_1 = 0x00010901"
definition PRIV_VERSION_1_10_0 :: target_ulong where "PRIV_VERSION_1_10_0 = 0x00011000"

subsection \<open>The hart state\<close>

text \<open>
  The fields of \<^verbatim>\<open>CPURISCVState\<close> that the helpers read or write, with
  \<^verbatim>\<open>exception_index\<close> of the enclosing \<^verbatim>\<open>CPUState\<close>. Two fields record effects on
  collaborators outside the file: \<open>tlb_flushes\<close> counts the calls of \<^verbatim>\<open>tlb_flush\<close>,
  and \<open>async_work\<close> lists the \<^verbatim>\<open>new_mip\<close> values handed to \<^verbatim>\<open>async_run_on_cpu\<close>
  (the notification that raises or clears the hard-interrupt line later).
\<close>

record CPURISCVState =
  pc :: target_ulong
  load_res :: target_ulong
  badaddr :: target_ulong
  priv_ver :: target_ulong
  misa :: target_ulong
  features :: uint32_t
  priv :: target_ulong
  virt :: target_ulong
  mhartid :: target_ulong
  mstatus :: target_ulong
  mip :: uint32_t
  miclaim :: uint32_t
  mie :: target_ulong
  mideleg :: target_ulong
  sptbr :: target_ulong
  satp :: target_ulong
  sbadaddr :: target_ulong
  mbadaddr :: target_ulong
  medeleg :: target_ulong
  stvec :: target_ulong
  sepc :: target_ulong
  scause :: target_ulong
  mtvec :: target_ulong
  mepc :: target_ulong
  mcause :: target_ulong
  hstatus :: target_ulong
  hedeleg :: target_ulong
  hideleg :: target_ulong
  hgatp :: target_ulong
  vsstatus :: target_ulong
  vsip :: uint32_t
  vsie :: target_ulong
  vstvec :: target_ulong
  vsscratch :: target_ulong
  vsepc :: target_ulong
  vscause :: target_ulong
  vstval :: target_ulong
  vsatp :: target_ulong
  sscratch :: target_ulong
  exception_index :: uint32_t
  tlb_flushes :: nat
  async_work :: "uint32_t list"

definition riscv_has_ext :: "CPURISCVState \<Rightarrow> target_ulong \<Rightarrow> bool" where
  "riscv_has_ext env ext = (misa env AND ext \<noteq> 0)"

definition riscv_feature :: "CPURISCVState \<Rightarrow> nat \<Rightarrow> bool" where
  "riscv_feature env feature = (features env AND push_bit feature 1 \<noteq> 0)"

text \<open>
  Modelled from the spec: \<^verbatim>\<open>ctz64\<close> of the host utilities (not under src/), the
  count of trailing zero bits, "the lowest bit position"; 64 for the word 0.
\<close>

definition ctz64 :: "target_ulong \<Rightarrow> int" where
  "ctz64 v = int (length (takeWhile (\<lambda>k. \<not> bit v k) [0..<64]))"

subsection \<open>Virtualisation flags\<close>

definition riscv_cpu_virt_enabled :: "CPURISCVState \<Rightarrow> bool" where
  "riscv_cpu_virt_enabled env =
     (if \<not> riscv_has_ext env RVH then False
      else drop_bit VIRT_MODE_SHIFT (virt env AND VIRT_MODE_MASK) = VIRT_ON)"

definition riscv_cpu_set_virt_enabled :: "CPURISCVState \<Rightarrow> bool \<Rightarrow> CPURISCVState" where
  "riscv_cpu_set_virt_enabled env enable =
     (if \<not> riscv_has_ext env RVH then env
      else
        let en = (if enable then 1 else 0 :: target_ulong);
            env1 = (if drop_bit VIRT_MODE_SHIFT (virt env AND VIRT_MODE_MASK) \<noteq> en
                    then env\<lparr>tlb_flushes := Suc (tlb_flushes env)\<rparr> else env);
            env2 = env1\<lparr>virt := virt env1 AND NOT VIRT_MODE_MASK\<rparr>
        in env2\<lparr>virt := virt env2 OR push_bit VIRT_MODE_SHIFT en\<rparr>)"

definition riscv_cpu_force_hs_excep_enabled :: "CPURISCVState \<Rightarrow> bool" where
  "riscv_cpu_force_hs_excep_enabled env =
     (if \<not> riscv_has_ext env RVH then False
      else drop_bit FORCE_HS_EXCEP_SHIFT (virt env AND FORCE_HS_EXCEP_MASK) = FORCE_HS_EXCEP)"

definition riscv_cpu_set_force_hs_excep :: "CPURISCVState \<Rightarrow> bool \<Rightarrow> CPURISCVState" where
  "riscv_cpu_set_force_hs_excep env enable =
     (if \<not> riscv_has_ext env RVH then env
      else
        let en = (if enable then 1 else 0 :: target_ulong);
            env1 = env\<lparr>virt := virt env AND NOT FORCE_HS_EXCEP_MASK\<rparr>
        in env1\<lparr>virt := virt env1 OR push_bit FORCE_HS_EXCEP_SHIFT en\<rparr>)"

subsection \<open>The interrupt arbiter\<close>

text \<open>
  \<^verbatim>\<open>riscv_cpu_local_irq_pending\<close>. Its locals \<^verbatim>\<open>irqs\<close> and \<^verbatim>\<open>pending_hs_irq\<close>
  come first, each a function of the hart state. The enables \<^verbatim>\<open>mie\<close>, \<^verbatim>\<open>sie\<close> and
  \<^verbatim>\<open>vsie\<close> are 0 or 1 as in C, and their negation is the all-ones or the zero mask.
\<close>

definition local_irqs :: "CPURISCVState \<Rightarrow> target_ulong" where
  "local_irqs env =
     (let mstatus_mie = get_field (mstatus env) MSTATUS_MIE;
          mstatus_sie = get_field (mstatus env) MSTATUS_SIE;
          pending = ucast (mip env) AND mie env;
          mie_en = (if priv env < PRV_M \<or> (priv env = PRV_M \<and> mstatus_mie \<noteq> 0)
                    then 1 else 0 :: target_ulong);
          sie_en = (if priv env < PRV_S \<or> (priv env = PRV_S \<and> mstatus_sie \<noteq> 0)
                    then 1 else 0 :: target_ulong)
      in (pending AND NOT (mideleg env) AND - mie_en) OR
         (pending AND mideleg env AND - sie_en))"

definition local_pending_hs_irq :: "CPURISCVState \<Rightarrow> target_ulong" where
  "local_pending_hs_irq env =
     (let vsstatus_sie = get_field (vsstatus env) MSTATUS_SIE;
          hspending = ucast (vsip env) AND vsie env;
          vsie_en = (if priv env < PRV_S \<or> (priv env = PRV_S \<and> vsstatus_sie \<noteq> 0)
                     then 1 else 0 :: target_ulong)
      in hspending AND - vsie_en)"

text \<open>
  The function returns the interrupt number (or \<^verbatim>\<open>EXCP_NONE\<close>) and, since it may
  call \<^verbatim>\<open>riscv_cpu_set_force_hs_excep\<close>, the hart state it leaves.
\<close>

definition riscv_cpu_local_irq_pending :: "CPURISCVState \<Rightarrow> int \<times> CPURISCVState" where
  "riscv_cpu_local_irq_pending env =
     (let irqs = local_irqs env;
          pending_hs_irq = local_pending_hs_irq env
      in if riscv_cpu_virt_enabled env \<and> pending_hs_irq \<noteq> 0
         then (ctz64 pending_hs_irq, riscv_cpu_set_force_hs_excep env True)
         else if irqs \<noteq> 0 then (ctz64 irqs, env)
         else (EXCP_NONE, env))"

subsection \<open>The pending-interrupt word and the background registers\<close>

text \<open>
  \<^verbatim>\<open>riscv_cpu_update_mip\<close>: in a run of the hart's own thread the first
  compare-and-swap finds the value just read, so the loop body runs once. The new value
  is handed to the asynchronous notification; the old one is returned.
\<close>

definition riscv_cpu_update_mip ::
  "CPURISCVState \<Rightarrow> uint32_t \<Rightarrow> uint32_t \<Rightarrow> uint32_t \<times> CPURISCVState" where
  "riscv_cpu_update_mip env msk value =
     (let old = mip env;
          new = (old AND NOT msk) OR (value AND msk)
      in (old, env\<lparr>mip := new, async_work := async_work env @ [new]\<rparr>))"

definition mstatus_mask :: target_ulong where
  "mstatus_mask = MSTATUS_MXR OR MSTATUS_SUM OR MSTATUS_FS OR
                  MSTATUS_SPP OR MSTATUS_SPIE OR MSTATUS_SIE OR MSTATUS64_UXL"

definition sie_mask :: target_ulong where
  "sie_mask = MIE_SEIE OR MIE_STIE OR MIE_SSIE"

definition sip_mask :: uint32_t where
  "sip_mask = MIP_SSIP OR MIP_STIP OR MIP_SEIP"

text \<open>
  \<^verbatim>\<open>riscv_cpu_swap_background_regs\<close>; \<open>None\<close> is the failed
  \<^verbatim>\<open>g_assert(riscv_has_ext(env, RVH))\<close>.
\<close>

definition riscv_cpu_swap_background_regs :: "CPURISCVState \<Rightarrow> CPURISCVState option" where
  "riscv_cpu_swap_background_regs env =
     (if \<not> riscv_has_ext env RVH then None
      else
        let tmp = vsstatus env AND mstatus_mask;
            env = env\<lparr>vsstatus := mstatus env AND mstatus_mask\<rparr>;
            env = env\<lparr>mstatus := (mstatus env AND NOT mstatus_mask) OR tmp\<rparr>;
            tmp = vsie env AND sie_mask;
            env = env\<lparr>vsie := mie env AND sie_mask\<rparr>;
            env = env\<lparr>mie := (mie env AND NOT sie_mask) OR tmp\<rparr>;
            tmp = vstvec env;
            env = env\<lparr>vstvec := stvec env\<rparr>;
            env = env\<lparr>stvec := tmp\<rparr>;
            tmp = vsscratch env;
            env = env\<lparr>vsscratch := sscratch env\<rparr>;
            env = env\<lparr>sscratch := tmp\<rparr>;
            tmp = vsepc env;
            env = env\<lparr>vsepc := sepc env\<rparr>;
            env = env\<lparr>sepc := tmp\<rparr>;
            tmp = vscause env;
            env = env\<lparr>vscause := scause env\<rparr>;
            env = env\<lparr>scause := tmp\<rparr>;
            tmp = vstval env;
            env = env\<lparr>vstval := sbadaddr env\<rparr>;
            env = env\<lparr>sbadaddr := tmp\<rparr>;
            tmp = vsatp env;
            env = env\<lparr>vsatp := satp env\<rparr>;
            env = env\<lparr>satp := tmp\<rparr>;
            tmp = (ucast (vsip env) :: target_ulong);
            (old, env) = riscv_cpu_update_mip env sip_mask (ucast tmp);
            tmp = (ucast old :: target_ulong);
            tmp = tmp AND ucast sip_mask
        in Some (env\<lparr>vsip := ucast tmp\<rparr>))"

text \<open>
  \<^verbatim>\<open>riscv_cpu_set_mode\<close>; \<open>None\<close> is \<^verbatim>\<open>g_assert_not_reached()\<close> for a
  privilege above M.
\<close>

definition riscv_cpu_set_mode :: "CPURISCVState \<Rightarrow> target_ulong \<Rightarrow> CPURISCVState option" where
  "riscv_cpu_set_mode env newpriv =
     (if newpriv > PRV_M then None
      else
        let newpriv = (if newpriv = PRV_H then PRV_U else newpriv)
        in Some (env\<lparr>priv := newpriv, load_res := - 1\<rparr>))"

subsection \<open>Trap entry\<close>

text \<open>
  Modelled from the spec: the exception codes of \<^verbatim>\<open>cpu_bits.h\<close> (not under src/),
  the RISC-V cause numbers with the hypervisor draft's HS and VS environment calls.
\<close>

definition RISCV_EXCP_INST_ADDR_MIS :: target_ulong where "RISCV_EXCP_INST_ADDR_MIS = 0x0"
definition RISCV_EXCP_INST_ACCESS_FAULT :: target_ulong where "RISCV_EXCP_INST_ACCESS_FAULT = 0x1"
definition RISCV_EXCP_LOAD_ADDR_MIS :: target_ulong where "RISCV_EXCP_LOAD_ADDR_MIS = 0x4"
definition RISCV_EXCP_LOAD_ACCESS_FAULT :: target_ulong where "RISCV_EXCP_LOAD_ACCESS_FAULT = 0x5"
definition RISCV_EXCP_STORE_AMO_ADDR_MIS :: target_ulong where "RISCV_EXCP_STORE_AMO_ADDR_MIS = 0x6"
definition RISCV_EXCP_STORE_AMO_ACCESS_FAULT :: target_ulong where
  "RISCV_EXCP_STORE_AMO_ACCESS_FAULT = 0x7"
definition RISCV_EXCP_U_ECALL :: target_ulong where "RISCV_EXCP_U_ECALL = 0x8"
definition RISCV_EXCP_HS_ECALL :: target_ulong where "RISCV_EXCP_HS_ECALL = 0x9"
definition RISCV_EXCP_VS_ECALL :: target_ulong where "RISCV_EXCP_VS_ECALL = 0xa"
definition RISCV_EXCP_M_ECALL :: target_ulong where "RISCV_EXCP_M_ECALL = 0xb"
definition RISCV_EXCP_INST_PAGE_FAULT :: target_ulong where "RISCV_EXCP_INST_PAGE_FAULT = 0xc"
definition RISCV_EXCP_LOAD_PAGE_FAULT :: target_ulong where "RISCV_EXCP_LOAD_PAGE_FAULT = 0xd"
definition RISCV_EXCP_STORE_PAGE_FAULT :: target_ulong where "RISCV_EXCP_STORE_PAGE_FAULT = 0xf"

definition TARGET_LONG_BITS :: nat where "TARGET_LONG_BITS = 64"

text \<open>
  The parts of \<^verbatim>\<open>riscv_cpu_do_interrupt\<close>, in the order of the source. First the
  trap value (the \<^verbatim>\<open>switch\<close> on the cause of a synchronous trap).
\<close>

definition trap_tval :: "CPURISCVState \<Rightarrow> bool \<Rightarrow> target_ulong \<Rightarrow> target_ulong" where
  "trap_tval env async cause =
     (if \<not> async \<and>
         cause \<in> {RISCV_EXCP_INST_ADDR_MIS, RISCV_EXCP_INST_ACCESS_FAULT,
                  RISCV_EXCP_LOAD_ADDR_MIS, RISCV_EXCP_STORE_AMO_ADDR_MIS,
                  RISCV_EXCP_LOAD_ACCESS_FAULT, RISCV_EXCP_STORE_AMO_ACCESS_FAULT,
                  RISCV_EXCP_INST_PAGE_FAULT, RISCV_EXCP_LOAD_PAGE_FAULT,
                  RISCV_EXCP_STORE_PAGE_FAULT}
      then badaddr env else 0)"

text \<open>
  The environment call is dispatched as one cause and translated by the mode;
  \<open>None\<close> is the failed \<^verbatim>\<open>assert(env->priv <= 3)\<close>.
\<close>

definition ecall_cause :: "CPURISCVState \<Rightarrow> bool \<Rightarrow> target_ulong \<Rightarrow> target_ulong option" where
  "ecall_cause env async cause =
     (if \<not> async \<and> cause = RISCV_EXCP_U_ECALL then
        if \<not> priv env \<le> 3 then None
        else if priv env = PRV_M then Some RISCV_EXCP_M_ECALL
        else if priv env = PRV_S \<and> riscv_cpu_virt_enabled env then Some RISCV_EXCP_VS_ECALL
        else if priv env = PRV_S \<and> \<not> riscv_cpu_virt_enabled env then Some RISCV_EXCP_HS_ECALL
        else if priv env = PRV_U then Some RISCV_EXCP_U_ECALL
        else Some cause
      else Some cause)"

text \<open>The test that sends the trap to S-mode.\<close>

definition trap_in_smode :: "CPURISCVState \<Rightarrow> target_ulong \<Rightarrow> target_ulong \<Rightarrow> bool" where
  "trap_in_smode env deleg cause =
     (priv env \<le> PRV_S \<and> unat cause < TARGET_LONG_BITS \<and>
      drop_bit (unat cause) deleg AND 1 \<noteq> 0)"

text \<open>
  The previous interrupt enable saved in xPIE: the xIE bit from privilege version 1.10,
  and the bit \<^verbatim>\<open>MSTATUS_UIE << env->priv\<close> before. The shift is one of C's \<^verbatim>\<open>int\<close>;
  \<open>None\<close> is a shift that overflows it.
\<close>

definition prev_ie :: "CPURISCVState \<Rightarrow> target_ulong \<Rightarrow> target_ulong \<Rightarrow> target_ulong option" where
  "prev_ie env s xie =
     (if priv_ver env \<ge> PRIV_VERSION_1_10_0 then Some (get_field s xie)
      else if unat (priv env) \<ge> 31 then None
      else Some (get_field s (push_bit (unat (priv env)) MSTATUS_UIE)))"

definition trap_pc :: "target_ulong \<Rightarrow> bool \<Rightarrow> target_ulong \<Rightarrow> target_ulong" where
  "trap_pc tvec async cause =
     push_bit 2 (drop_bit 2 tvec) + (if async \<and> tvec AND 3 = 1 then cause * 4 else 0)"

definition of_bool64 :: "bool \<Rightarrow> target_ulong" where
  "of_bool64 b = (if b then 1 else 0)"

text \<open>The update of \<^verbatim>\<open>hstatus\<close> shared by the two arms that trap into HS-mode.\<close>

definition hs_trap_hstatus :: "CPURISCVState \<Rightarrow> CPURISCVState" where
  "hs_trap_hstatus env =
     (let env = env\<lparr>hstatus := set_field (hstatus env) HSTATUS_SP2V
                                   (get_field (hstatus env) HSTATUS_SPV)\<rparr>;
          env = env\<lparr>hstatus := set_field (hstatus env) HSTATUS_SP2P
                                   (get_field (mstatus env) SSTATUS_SPP)\<rparr>
      in env\<lparr>hstatus := set_field (hstatus env) HSTATUS_SPV
                             (of_bool64 (riscv_cpu_virt_enabled env))\<rparr>)"

text \<open>The H-extension part of the S-mode arm.\<close>

definition trap_smode_hyp ::
  "CPURISCVState \<Rightarrow> bool \<Rightarrow> target_ulong \<Rightarrow> CPURISCVState option" where
  "trap_smode_hyp env async cause =
     (if riscv_has_ext env RVH then
        let hdeleg = (if async then hideleg env else hedeleg env)
        in if riscv_cpu_virt_enabled env \<and> drop_bit (unat cause) hdeleg AND 1 \<noteq> 0 \<and>
              \<not> riscv_cpu_force_hs_excep_enabled env
           then Some env
           else if riscv_cpu_virt_enabled env then
             (case riscv_cpu_swap_background_regs env of
                None \<Rightarrow> None
              | Some env \<Rightarrow>
                  let env = hs_trap_hstatus env;
                      env = (if riscv_cpu_force_hs_excep_enabled env
                             then env\<lparr>hstatus := set_field (hstatus env) HSTATUS_STL 1\<rparr>
                             else env\<lparr>hstatus := set_field (hstatus env) HSTATUS_STL 0\<rparr>);
                      env = riscv_cpu_set_virt_enabled env False
                  in Some (riscv_cpu_set_force_hs_excep env False))
           else Some (hs_trap_hstatus env)
      else Some env)"

definition scause_value :: "target_ulong \<Rightarrow> bool \<Rightarrow> target_ulong" where
  "scause_value cause async = cause OR push_bit (TARGET_LONG_BITS - 1) (of_bool64 async)"

definition mcause_value :: "target_ulong \<Rightarrow> bool \<Rightarrow> target_ulong" where
  "mcause_value cause async = cause OR NOT (drop_bit (if async then 1 else 0) (- 1))"

definition trap_smode ::
  "CPURISCVState \<Rightarrow> bool \<Rightarrow> target_ulong \<Rightarrow> target_ulong \<Rightarrow> CPURISCVState option" where
  "trap_smode env async cause tval =
     (case trap_smode_hyp env async cause of
        None \<Rightarrow> None
      | Some env \<Rightarrow>
          let s = mstatus env in
          (case prev_ie env s MSTATUS_SIE of
             None \<Rightarrow> None
           | Some ie \<Rightarrow>
               let s = set_field s MSTATUS_SPIE ie;
                   s = set_field s MSTATUS_SPP (priv env);
                   s = set_field s MSTATUS_SIE 0;
                   env = env\<lparr>mstatus := s\<rparr>;
                   env = env\<lparr>scause := scause_value cause async\<rparr>;
                   env = env\<lparr>sepc := pc env\<rparr>;
                   env = env\<lparr>sbadaddr := tval\<rparr>;
                   env = env\<lparr>pc := trap_pc (stvec env) async cause\<rparr>
               in riscv_cpu_set_mode env PRV_S))"

text \<open>The H-extension part of the M-mode arm.\<close>

definition trap_mmode_hyp :: "CPURISCVState \<Rightarrow> CPURISCVState option" where
  "trap_mmode_hyp env =
     (if riscv_has_ext env RVH then
        (case (if riscv_cpu_virt_enabled env then riscv_cpu_swap_background_regs env
               else Some env) of
           None \<Rightarrow> None
         | Some env \<Rightarrow>
             let env = env\<lparr>mstatus := set_field (mstatus env) MSTATUS_MPV
                                          (of_bool64 (riscv_cpu_virt_enabled env))\<rparr>;
                 env = env\<lparr>mstatus := set_field (mstatus env) MSTATUS_MTL
                                          (of_bool64 (riscv_cpu_force_hs_excep_enabled env))\<rparr>
             in Some (riscv_cpu_set_virt_enabled env False))
      else Some env)"

definition trap_mmode ::
  "CPURISCVState \<Rightarrow> bool \<Rightarrow> target_ulong \<Rightarrow> target_ulong \<Rightarrow> CPURISCVState option" where
  "trap_mmode env async cause tval =
     (case trap_mmode_hyp env of
        None \<Rightarrow> None
      | Some env \<Rightarrow>
          let s = mstatus env in
          (case prev_ie env s MSTATUS_MIE of
             None \<Rightarrow> None
           | Some ie \<Rightarrow>
               let s = set_field s MSTATUS_MPIE ie;
                   s = set_field s MSTATUS_MPP (priv env);
                   s = set_field s MSTATUS_MIE 0;
                   env = env\<lparr>mstatus := s\<rparr>;
                   env = env\<lparr>mcause := mcause_value cause async\<rparr>;
                   env = env\<lparr>mepc := pc env\<rparr>;
                   env = env\<lparr>mbadaddr := tval\<rparr>;
                   env = env\<lparr>pc := trap_pc (mtvec env) async cause\<rparr>
               in riscv_cpu_set_mode env PRV_M))"

text \<open>
  \<^verbatim>\<open>riscv_cpu_do_interrupt\<close>: \<open>None\<close> is a failed assertion on the way; otherwise
  the state after the trap, with \<^verbatim>\<open>exception_index\<close> set to \<^verbatim>\<open>EXCP_NONE\<close>.
\<close>

definition riscv_cpu_do_interrupt :: "CPURISCVState \<Rightarrow> CPURISCVState option" where
  "riscv_cpu_do_interrupt env =
     (let async = (exception_index env AND RISCV_EXCP_INT_FLAG \<noteq> 0);
          cause = (ucast (exception_index env AND RISCV_EXCP_INT_MASK) :: target_ulong);
          deleg = (if async then mideleg env else medeleg env);
          tval = trap_tval env async cause
      in case ecall_cause env async cause of
           None \<Rightarrow> None
         | Some cause \<Rightarrow>
             (case (if trap_in_smode env deleg cause then trap_smode env async cause tval
                    else trap_mmode env async cause tval) of
                None \<Rightarrow> None
              | Some env \<Rightarrow> Some (env\<lparr>exception_index := word_of_int EXCP_NONE\<rparr>)))"

subsection \<open>The page-table walker\<close>

text \<open>
  Modelled from the spec: the page-table constants of \<^verbatim>\<open>cpu_bits.h\<close> (PTE flag
  bits, \<^verbatim>\<open>PTE_PPN_SHIFT\<close>, \<^verbatim>\<open>PGSHIFT\<close> = 12, the encodings of the translation
  modes), the protection bits and access types of the emulator's core; none is under src/.
\<close>

definition PTE_V :: target_ulong where "PTE_V = 0x001"
definition PTE_R :: target_ulong where "PTE_R = 0x002"
definition PTE_W :: target_ulong where "PTE_W = 0x004"
definition PTE_X :: target_ulong where "PTE_X = 0x008"
definition PTE_U :: target_ulong where "PTE_U = 0x010"
definition PTE_A :: target_ulong where "PTE_A = 0x040"
definition PTE_D :: target_ulong where "PTE_D = 0x080"
definition PTE_PPN_SHIFT :: nat where "PTE_PPN_SHIFT = 10"
definition PGSHIFT :: int where "PGSHIFT = 12"

definition VM_1_10_MBARE :: target_ulong where "VM_1_10_MBARE = 0"
definition VM_1_10_SV32 :: target_ulong where "VM_1_10_SV32 = 1"
definition VM_1_10_SV39 :: target_ulong where "VM_1_10_SV39 = 8"
definition VM_1_10_SV48 :: target_ulong where "VM_1_10_SV48 = 9"
definition VM_1_10_SV57 :: target_ulong where "VM_1_10_SV57 = 10"
definition VM_1_09_MBARE :: target_ulong where "VM_1_09_MBARE = 0"
definition VM_1_09_SV32 :: target_ulong where "VM_1_09_SV32 = 8"
definition VM_1_09_SV39 :: target_ulong where "VM_1_09_SV39 = 9"
definition VM_1_09_SV48 :: target_ulong where "VM_1_09_SV48 = 10"

definition PAGE_READ :: int where "PAGE_READ = 1"
definition PAGE_WRITE :: int where "PAGE_WRITE = 2"
definition PAGE_EXEC :: int where "PAGE_EXEC = 4"

datatype MMUAccessType = MMU_DATA_LOAD | MMU_DATA_STORE | MMU_INST_FETCH

text \<open>
  The result of a translation: the return code with, on success, the two
  out-parameters \<^verbatim>\<open>*physical\<close> and \<^verbatim>\<open>*prot\<close>. \<open>ASSERT_FAILED\<close> is
  \<^verbatim>\<open>g_assert_not_reached()\<close> on an unknown translation mode; \<open>UNDEFINED_SHIFT\<close> is a
  shift by a negative or too large count, which C leaves undefined.
\<close>

datatype translate =
  TRANSLATE_SUCCESS hwaddr int
| TRANSLATE_FAIL
| TRANSLATE_PMP_FAIL
| ASSERT_FAILED
| UNDEFINED_SHIFT

text \<open>
  Modelled from the spec: guest-physical memory and the PMP predicate are
  collaborators outside src/ (spec section 6). Memory gives the 64-bit word loaded at a
  physical address (\<^verbatim>\<open>ldq_phys\<close>) and takes a word stored there; \<open>is_ram\<close> tells
  whether the address lies in RAM; \<open>pmp_hart_has_privs\<close> takes the address, the size,
  the access mask and the mode.
\<close>

type_synonym phys_mem = "hwaddr \<Rightarrow> target_ulong"

text \<open>
  The locals of \<^verbatim>\<open>get_physical_address\<close> that the walk only reads.
\<close>

record walk_params =
  pmp_enabled :: bool
  pmp_hart_has_privs :: "hwaddr \<Rightarrow> nat \<Rightarrow> int \<Rightarrow> target_ulong \<Rightarrow> bool"
  is_ram :: "hwaddr \<Rightarrow> bool"
  addr :: target_ulong
  access_type :: MMUAccessType
  mode :: int
  sum_flag :: bool
  mxr :: bool
  levels :: int
  ptidxbits :: int
  ptesize :: int

text \<open>The result of the walk: the translation, the memory it leaves (accessed and dirty
  bits are written into it) and the page-table entries it loaded, as address and value,
  in the order of the loads.\<close>

type_synonym walk_result = "translate \<times> phys_mem \<times> (hwaddr \<times> target_ulong) list"

text \<open>
  The \<^verbatim>\<open>for\<close> loop of the walk, with the jump to \<^verbatim>\<open>restart\<close>. The loop variables are
  \<open>base\<close>, \<open>ptshift\<close> and \<open>i\<close>; the jump sets \<open>i\<close> to 0 again and keeps the other two, as
  the label stands after their initialisation. The compare-and-swap that sets the
  accessed and dirty bits competes with other writers: \<open>others\<close> lists the values they
  put into the entry just before each compare-and-swap of this walk, and when the list
  is used up nobody interferes any more. Every iteration that loads an entry puts it in
  front of the entries loaded by the rest of the walk. \<open>pte_address\<close> is the address
  \<^verbatim>\<open>pte_addr\<close> that an iteration computes from its index \<^verbatim>\<open>idx\<close>.
\<close>

definition pte_address :: "walk_params \<Rightarrow> target_ulong \<Rightarrow> int \<Rightarrow> target_ulong" where
  "pte_address P base ptshift =
     (let idx = drop_bit (nat (PGSHIFT + ptshift)) (addr P) AND
                (push_bit (nat (ptidxbits P)) 1 - 1)
      in base + idx * word_of_int (ptesize P))"

function walk ::
  "walk_params \<Rightarrow> target_ulong list \<Rightarrow> phys_mem \<Rightarrow> target_ulong \<Rightarrow> int \<Rightarrow> int \<Rightarrow> walk_result"
  where
  "walk P others mem base ptshift i =
     (if \<not> i < levels P then (TRANSLATE_FAIL, mem, [])
      else if PGSHIFT + ptshift < 0 \<or> 64 \<le> PGSHIFT + ptshift \<or>
              ptidxbits P < 0 \<or> 31 \<le> ptidxbits P
      then (UNDEFINED_SHIFT, mem, [])
      else
        let pte_addr = pte_address P base ptshift
        in
        if pmp_enabled P \<and> \<not> pmp_hart_has_privs P pte_addr 8 (push_bit 0 1) PRV_S
        then (TRANSLATE_PMP_FAIL, mem, [])
        else
          let pte = mem pte_addr;
              ppn = drop_bit PTE_PPN_SHIFT pte;
              (ret, mem', loaded) =
                (if pte AND PTE_V = 0 then (TRANSLATE_FAIL, mem, [])
                 else if pte AND (PTE_R OR PTE_W OR PTE_X) = 0
                 then walk P others mem (push_bit (nat PGSHIFT) ppn) (ptshift - ptidxbits P) (i + 1)
                 else if pte AND (PTE_R OR PTE_W OR PTE_X) = PTE_W
                 then (TRANSLATE_FAIL, mem, [])
                 else if pte AND (PTE_R OR PTE_W OR PTE_X) = (PTE_W OR PTE_X)
                 then (TRANSLATE_FAIL, mem, [])
                 else if pte AND PTE_U \<noteq> 0 \<and> (mode P \<noteq> uint PRV_U \<and>
                           (\<not> sum_flag P \<or> access_type P = MMU_INST_FETCH))
                 then (TRANSLATE_FAIL, mem, [])
                 else if pte AND PTE_U = 0 \<and> mode P \<noteq> uint PRV_S
                 then (TRANSLATE_FAIL, mem, [])
                 else if ptshift < 0 \<or> 64 \<le> ptshift
                 then (UNDEFINED_SHIFT, mem, [])
                 else if ppn AND (push_bit (nat ptshift) 1 - 1) \<noteq> 0
                 then (TRANSLATE_FAIL, mem, [])
                 else if access_type P = MMU_DATA_LOAD \<and>
                         \<not> (pte AND PTE_R \<noteq> 0 \<or> (pte AND PTE_X \<noteq> 0 \<and> mxr P))
                 then (TRANSLATE_FAIL, mem, [])
                 else if access_type P = MMU_DATA_STORE \<and> pte AND PTE_W = 0
                 then (TRANSLATE_FAIL, mem, [])
                 else if access_type P = MMU_INST_FETCH \<and> pte AND PTE_X = 0
                 then (TRANSLATE_FAIL, mem, [])
                 else
                   let updated_pte = pte OR PTE_A OR
                         (if access_type P = MMU_DATA_STORE then PTE_D else 0);
                       vpn = drop_bit (nat PGSHIFT) (addr P);
                       physical = push_bit (nat PGSHIFT)
                                    (ppn OR (vpn AND (push_bit (nat ptshift) 1 - 1)));
                       leaf = (\<lambda>pte mem.
                         (TRANSLATE_SUCCESS physical
                            ((if pte AND PTE_R \<noteq> 0 \<or> (pte AND PTE_X \<noteq> 0 \<and> mxr P)
                              then PAGE_READ else 0) OR
                             (if pte AND PTE_X \<noteq> 0 then PAGE_EXEC else 0) OR
                             (if pte AND PTE_W \<noteq> 0 \<and> access_type P = MMU_DATA_STORE
                              then PAGE_WRITE else 0)),
                          mem, []))
                   in
                   if updated_pte \<noteq> pte then
                     if is_ram P pte_addr then
                       (case others of
                          [] \<Rightarrow> leaf updated_pte (mem(pte_addr := updated_pte))
                        | old_pte # others \<Rightarrow>
                            if old_pte \<noteq> pte
                            then walk P others (mem(pte_addr := old_pte)) base ptshift 0
                            else leaf updated_pte (mem(pte_addr := updated_pte)))
                     else (TRANSLATE_FAIL, mem, [])
                   else leaf pte mem)
          in (ret, mem', (pte_addr, pte) # loaded))"
  by pat_completeness auto
termination
  by (relation "measures [\<lambda>(P, others, mem, base, ptshift, i). length others,
                          \<lambda>(P, others, mem, base, ptshift, i). nat (levels P - i)]")
     auto

declare walk.simps [simp del]

text \<open>
  The two \<^verbatim>\<open>switch\<close> statements on the translation mode: the walk's \<open>levels\<close>,
  \<open>ptidxbits\<close> and \<open>ptesize\<close>, or Bare, or the \<^verbatim>\<open>default\<close> branch.
\<close>

datatype vm_switch = SV int int int | MBARE | NOT_REACHED

definition switch_vm_1_10 :: "target_ulong \<Rightarrow> vm_switch" where
  "switch_vm_1_10 vm =
     (if vm = VM_1_10_SV32 then SV 2 10 4
      else if vm = VM_1_10_SV39 then SV 3 9 8
      else if vm = VM_1_10_SV48 then SV 4 9 8
      else if vm = VM_1_10_SV57 then SV 5 9 8
      else if vm = VM_1_10_MBARE then MBARE
      else NOT_REACHED)"

definition switch_vm_1_09 :: "target_ulong \<Rightarrow> vm_switch" where
  "switch_vm_1_09 vm =
     (if vm = VM_1_09_SV32 then SV 2 10 4
      else if vm = VM_1_09_SV39 then SV 3 9 8
      else if vm = VM_1_09_SV48 then SV 4 9 8
      else if vm = VM_1_09_MBARE then MBARE
      else NOT_REACHED)"

text \<open>
  The effective mode of an access: \<^verbatim>\<open>mmu_idx\<close>, or \<^verbatim>\<open>mstatus.MPP\<close> for a data
  access from M-mode with \<^verbatim>\<open>mstatus.MPRV\<close> set.
\<close>

definition effective_mode :: "CPURISCVState \<Rightarrow> MMUAccessType \<Rightarrow> int \<Rightarrow> int" where
  "effective_mode env acc mmu_idx =
     (if mmu_idx = uint PRV_M \<and> acc \<noteq> MMU_INST_FETCH \<and>
         get_field (mstatus env) MSTATUS_MPRV \<noteq> 0
      then uint (get_field (mstatus env) MSTATUS_MPP)
      else mmu_idx)"

text \<open>The translation mode the walker switches on, by privilege version.\<close>

definition active_vm :: "CPURISCVState \<Rightarrow> vm_switch" where
  "active_vm env =
     (if priv_ver env \<ge> PRIV_VERSION_1_10_0
      then switch_vm_1_10 (get_field (satp env) SATP_MODE)
      else switch_vm_1_09 (get_field (mstatus env) MSTATUS_VM))"

text \<open>
  \<^verbatim>\<open>get_physical_address\<close>. The collaborators (PMP predicate, RAM predicate, the
  other writers and the memory) are arguments; \<open>first_stage\<close> is a parameter the body
  never reads.
\<close>

definition get_physical_address ::
  "CPURISCVState \<Rightarrow> (hwaddr \<Rightarrow> nat \<Rightarrow> int \<Rightarrow> target_ulong \<Rightarrow> bool) \<Rightarrow> (hwaddr \<Rightarrow> bool) \<Rightarrow>
   target_ulong list \<Rightarrow> phys_mem \<Rightarrow> target_ulong \<Rightarrow> MMUAccessType \<Rightarrow> int \<Rightarrow> bool \<Rightarrow>
   walk_result" where
  "get_physical_address env pmp ram others mem va acc mmu_idx first_stage =
     (let md = effective_mode env acc mmu_idx in
      if md = uint PRV_M \<or> \<not> riscv_feature env RISCV_FEATURE_MMU
      then (TRANSLATE_SUCCESS va (PAGE_READ OR PAGE_WRITE OR PAGE_EXEC), mem, [])
      else
        let mxr' = (get_field (mstatus env) MSTATUS_MXR \<noteq> 0);
            base = (if priv_ver env \<ge> PRIV_VERSION_1_10_0
                    then push_bit (nat PGSHIFT) (get_field (satp env) SATP_PPN)
                    else push_bit (nat PGSHIFT) (sptbr env));
            sum' = (if priv_ver env \<ge> PRIV_VERSION_1_10_0
                        then get_field (mstatus env) MSTATUS_SUM \<noteq> 0
                        else get_field (mstatus env) MSTATUS_PUM = 0)
        in
        case active_vm env of
          MBARE \<Rightarrow> (TRANSLATE_SUCCESS va (PAGE_READ OR PAGE_WRITE OR PAGE_EXEC), mem, [])
        | NOT_REACHED \<Rightarrow> (ASSERT_FAILED, mem, [])
        | SV lv pbits psz \<Rightarrow>
            let va_bits = PGSHIFT + lv * pbits;
                msk = push_bit (nat (int TARGET_LONG_BITS - (va_bits - 1))) 1 - 1;
                masked_msbs = drop_bit (nat (va_bits - 1)) va AND msk
            in
            if masked_msbs \<noteq> 0 \<and> masked_msbs \<noteq> msk then (TRANSLATE_FAIL, mem, [])
            else
              walk \<lparr>pmp_enabled = riscv_feature env RISCV_FEATURE_PMP,
                    pmp_hart_has_privs = pmp, is_ram = ram, addr = va,
                    access_type = acc, mode = md, sum_flag = sum', mxr = mxr',
                    levels = lv, ptidxbits = pbits, ptesize = psz\<rparr>
                   others mem base ((lv - 1) * pbits) 0)"

section \<open>Predicates of the specification\<close>

text \<open>
  The specification's masking condition for "no interrupt" (its testable property 1),
  written from its words: the M-level mask is all-ones below M and \<^verbatim>\<open>mstatus.MIE\<close>
  replicated otherwise, the S-level mask is all-ones below S and \<^verbatim>\<open>mstatus.SIE\<close>
  replicated otherwise.
\<close>

definition spec_no_interrupt :: "CPURISCVState \<Rightarrow> bool" where
  "spec_no_interrupt env =
     (ucast (mip env) AND mie env AND
        (if priv env < PRV_M then - 1 else - get_field (mstatus env) MSTATUS_MIE) AND
        NOT (mideleg env) = 0 \<and>
      ucast (mip env) AND mie env AND
        (if priv env < PRV_S then - 1 else - get_field (mstatus env) MSTATUS_SIE) AND
        mideleg env = 0)"

text \<open>
  A virtual address is canonical for \<open>va_bits\<close> significant bits when every bit from
  position \<open>va_bits - 1\<close> upwards equals bit \<open>va_bits - 1\<close>.
\<close>

definition sign_extended :: "target_ulong \<Rightarrow> nat \<Rightarrow> bool" where
  "sign_extended va va_bits =
     list_all (\<lambda>k. bit va k = bit va (va_bits - 1)) [va_bits - 1 ..< 64]"

text \<open>An interior node of the page table: a valid entry with R = W = X = 0.\<close>

definition interior_pte :: "target_ulong \<Rightarrow> bool" where
  "interior_pte pte = (pte AND PTE_V \<noteq> 0 \<and> pte AND (PTE_R OR PTE_W OR PTE_X) = 0)"

section \<open>Example states\<close>

text \<open>The hart after reset (spec section 3): M-mode, everything else cleared.\<close>

definition reset_state :: CPURISCVState where
  "reset_state = \<lparr>pc = 0, load_res = - 1, badaddr = 0, priv_ver = PRIV_VERSION_1_10_0,
     misa = 0, features = 0, priv = PRV_M, virt = 0, mhartid = 0, mstatus = 0, mip = 0,
     miclaim = 0, mie = 0, mideleg = 0, sptbr = 0, satp = 0, sbadaddr = 0, mbadaddr = 0,
     medeleg = 0, stvec = 0, sepc = 0, scause = 0, mtvec = 0, mepc = 0, mcause = 0,
     hstatus = 0, hedeleg = 0, hideleg = 0, hgatp = 0, vsstatus = 0, vsip = 0, vsie = 0,
     vstvec = 0, vsscratch = 0, vsepc = 0, vscause = 0, vstval = 0, vsatp = 0,
     sscratch = 0, exception_index = - 1, tlb_flushes = 0, async_work = []\<rparr>"

text \<open>M-mode with \<^verbatim>\<open>mstatus.SIE\<close> set and a delegated supervisor software interrupt
  pending and enabled.\<close>

definition deleg_irq_state :: CPURISCVState where
  "deleg_irq_state = reset_state\<lparr>mip := 2, mie := 2, mideleg := 2, mstatus := 2\<rparr>"

text \<open>A guest in VU-mode (virt on) with a VS-level software interrupt pending and enabled.\<close>

definition vs_irq_state :: CPURISCVState where
  "vs_irq_state =
     reset_state\<lparr>misa := RVH, virt := 1, priv := PRV_U, vsip := 2, vsie := 2\<rparr>"

text \<open>An environment call from M-mode.\<close>

definition ecall_m_state :: CPURISCVState where
  "ecall_m_state = reset_state\<lparr>pc := 0x1000, mtvec := 0x2000, exception_index := 8\<rparr>"

text \<open>An illegal instruction in S-mode on a hart of the legacy privilege version, with
  \<^verbatim>\<open>mstatus.MIE\<close> set and \<^verbatim>\<open>mstatus.SIE\<close> clear.\<close>

definition legacy_s_state :: CPURISCVState where
  "legacy_s_state =
     reset_state\<lparr>priv_ver := PRIV_VERSION_1_09_1, priv := PRV_S, mstatus := 8,
                  exception_index := 2\<rparr>"

text \<open>An illegal instruction in S-mode, not delegated, \<^verbatim>\<open>mtvec\<close> in vectored mode.\<close>

definition illegal_s_state :: CPURISCVState where
  "illegal_s_state =
     reset_state\<lparr>priv := PRV_S, mstatus := 8, pc := 0x80000000, mtvec := 0x80001001,
                  exception_index := 2\<rparr>"

text \<open>A hart with the H-extension and distinct values in the supervisor registers and
  their shadows.\<close>

definition hyp_state :: CPURISCVState where
  "hyp_state =
     reset_state\<lparr>misa := RVH, mstatus := 0x80022, vsstatus := 0x6100, mie := 0x2AA,
                  vsie := 0x20, mip := 0x0A2, vsip := 0xFFF, stvec := 0x100, vstvec := 0x200,
                  sscratch := 1, vsscratch := 2, sepc := 3, vsepc := 4, scause := 5,
                  vscause := 6, sbadaddr := 7, vstval := 8, satp := 9, vsatp := 10\<rparr>"

text \<open>An environment call from VS-mode (S-mode with virt on), delegated by
  \<^verbatim>\<open>medeleg\<close> but not by \<^verbatim>\<open>hedeleg\<close>.\<close>

definition vs_ecall_state :: CPURISCVState where
  "vs_ecall_state =
     reset_state\<lparr>misa := RVH, virt := 1, priv := PRV_S, medeleg := 0x400,
                  exception_index := 8\<rparr>"

text \<open>S-mode with the MMU and Sv39 translation, root page table at page 0x80080.\<close>

definition sv39_state :: CPURISCVState where
  "sv39_state = reset_state\<lparr>features := 1, priv := PRV_S, satp := 0x8000000000080080\<rparr>"

text \<open>A memory in which every entry is a valid interior node pointing at page 0; a PMP
  that grants everything; all of memory RAM.\<close>

definition all_interior_mem :: phys_mem where
  "all_interior_mem = (\<lambda>a. PTE_V)"

definition pmp_allow :: "hwaddr \<Rightarrow> nat \<Rightarrow> int \<Rightarrow> target_ulong \<Rightarrow> bool" where
  "pmp_allow = (\<lambda>a sz privs md. True)"

definition all_ram :: "hwaddr \<Rightarrow> bool" where
  "all_ram = (\<lambda>a. True)"

section \<open>Bit-level facts\<close>

lemma and_single_bit_cases: "(x :: 'a::len word) AND 2 ^ k = 0 \<or> x AND 2 ^ k = 2 ^ k"
proof (cases "bit x k")
  case True
  then have "x AND 2 ^ k = 2 ^ k"
    by (intro bit_word_eqI) (auto simp add: bit_simps)
  then show ?thesis ..
next
  case False
  then have "x AND 2 ^ k = 0"
    by (simp add: and_exp_eq_0_iff_not_bit)
  then show ?thesis ..
qed

lemma merge_in: "((a AND NOT m) OR (b AND m)) AND m = b AND (m :: 'a::len word)"
  by (auto simp add: bit_eq_iff bit_simps)

lemma merge_out: "((a AND NOT m) OR (b AND m)) AND NOT m = a AND NOT (m :: 'a::len word)"
  by (auto simp add: bit_eq_iff bit_simps)

lemma merge_self: "(a AND NOT m) OR (a AND m) = (a :: 'a::len word)"
  by (auto simp add: bit_eq_iff bit_simps)

lemma clear_then_set: "(v AND NOT m) OR m = v OR (m :: 'a::len word)"
  by (auto simp add: bit_eq_iff bit_simps)

lemma disjoint_bits: "(m :: 'a::len word) AND m' = 0 \<Longrightarrow> bit m n \<Longrightarrow> bit m' n \<Longrightarrow> False"
proof -
  assume a: "m AND m' = 0" and b: "bit m n" "bit m' n"
  have "bit (m AND m') n = bit (0 :: 'a word) n" by (simp only: a)
  with b show False by (simp add: bit_and_iff)
qed

lemma merge_other:
  "(m :: 'a::len word) AND m' = 0 \<Longrightarrow> ((r AND NOT m) OR (t AND m)) AND m' = r AND m'"
  by (rule bit_word_eqI) (auto simp add: bit_simps dest: disjoint_bits)

lemma ucast_down_up: "(ucast (ucast (x :: 32 word) :: 64 word) :: 32 word) = x"
  by (simp add: bit_eq_iff bit_simps)

lemma ucast_and_down:
  "(ucast ((ucast (x :: 32 word) :: 64 word) AND ucast (m :: 32 word)) :: 32 word) = x AND m"
  by (auto simp add: bit_eq_iff bit_simps)

lemma word_le_3_cases: "(v :: 64 word) \<le> 3 \<Longrightarrow> v = 0 \<or> v = 1 \<or> v = 2 \<or> v = 3"
proof -
  assume "v \<le> 3"
  then have "unat v \<le> 3" by (simp add: word_le_nat_alt)
  then have "unat v = unat (0 :: 64 word) \<or> unat v = unat (1 :: 64 word) \<or>
             unat v = unat (2 :: 64 word) \<or> unat v = unat (3 :: 64 word)"
    by simp arith
  then show ?thesis
    by (simp only: word_unat_eq_iff [symmetric])
qed

lemma tvec_base: "push_bit 2 (drop_bit 2 (x :: 64 word)) = x AND NOT 3"
proof -
  have e: "(3 :: 64 word) = mask 2" by (simp add: mask_numeral)
  have s: "\<And>n :: nat. 2 \<le> n \<Longrightarrow> Suc (Suc (n - 2)) = n" by arith
  have "push_bit 2 (drop_bit 2 x) = x AND NOT (mask 2)"
    by (rule bit_word_eqI) (auto simp add: bit_simps s not_less)
  then show ?thesis by (simp only: e)
qed

lemma small_cause:
  assumes "(c :: 64 word) \<le> 15"
  shows "take_bit 63 c = c" "\<not> bit c 63"
proof -
  have "c < 2 ^ 63" using assms by (simp add: word_le_nat_alt word_less_nat_alt)
  then have "c AND mask 63 = c" by (rule less_mask_eq)
  then show "take_bit 63 c = c" by (simp only: take_bit_eq_mask)
  then have "bit c 63 = bit (take_bit 63 c) 63" by simp
  then show "\<not> bit c 63" by (simp add: bit_take_bit_iff)
qed

lemma push_bit_1_minus_1: "push_bit n 1 - 1 = (mask n :: 64 word)"
  by (simp add: mask_eq_exp_minus_1)

section \<open>Fields of the status registers\<close>

lemma get_field_merge_other:
  "m AND m' = 0 \<Longrightarrow> get_field ((r AND NOT m) OR (t AND m)) m' = get_field r m'"
  by (simp add: get_field_def merge_other)

lemma get_field_set_field_other:
  "m AND m' = 0 \<Longrightarrow> get_field (set_field r m v) m' = get_field r m'"
  by (simp add: set_field_def get_field_merge_other)

lemma get_field_set_field_same:
  "get_field (set_field r m v) m =
     ((v * (m AND NOT (push_bit 1 m))) AND m) div (m AND NOT (push_bit 1 m))"
  by (simp add: get_field_def set_field_def merge_in)

lemma get_set_MPP: "p \<le> 3 \<Longrightarrow> get_field (set_field r MSTATUS_MPP p) MSTATUS_MPP = p"
  by (drule word_le_3_cases) (auto simp add: get_field_set_field_same MSTATUS_MPP_def)

lemma get_set_MPIE:
  "v = 0 \<or> v = 1 \<Longrightarrow> get_field (set_field r MSTATUS_MPIE v) MSTATUS_MPIE = v"
  by (auto simp add: get_field_set_field_same MSTATUS_MPIE_def)

lemma get_set_MIE: "get_field (set_field r MSTATUS_MIE 0) MSTATUS_MIE = 0"
  by (auto simp add: get_field_set_field_same MSTATUS_MIE_def)

lemma get_field_MIE_cases: "get_field r MSTATUS_MIE = 0 \<or> get_field r MSTATUS_MIE = 1"
  using and_single_bit_cases [of r 3]
  by (auto simp add: get_field_def MSTATUS_MIE_def)

lemma get_field_SIE_cases: "get_field r MSTATUS_SIE = 0 \<or> get_field r MSTATUS_SIE = 1"
  using and_single_bit_cases [of r 1]
  by (auto simp add: get_field_def MSTATUS_SIE_def)

lemma get_field_UIE_shift_cases:
  assumes "(p :: 64 word) \<le> 3"
  shows "get_field r (push_bit (unat p) MSTATUS_UIE) = 0 \<or>
         get_field r (push_bit (unat p) MSTATUS_UIE) = 1"
  using word_le_3_cases [OF assms]
    and_single_bit_cases [of r 0] and_single_bit_cases [of r 1]
    and_single_bit_cases [of r 2] and_single_bit_cases [of r 3]
  by (auto simp add: get_field_def MSTATUS_UIE_def)

lemma UIE_shift_M: "push_bit (unat PRV_M) MSTATUS_UIE = MSTATUS_MIE"
  by (simp add: PRV_M_def MSTATUS_UIE_def MSTATUS_MIE_def)

lemma M_fields_disjoint:
  "MSTATUS_MIE AND MSTATUS_MPP = 0" "MSTATUS_MIE AND MSTATUS_MPIE = 0"
  "MSTATUS_MPP AND MSTATUS_MPIE = 0"
  by (simp_all add: MSTATUS_MIE_def MSTATUS_MPP_def MSTATUS_MPIE_def)

lemma MIE_disjoint:
  "MSTATUS_MPV AND MSTATUS_MIE = 0" "MSTATUS_MTL AND MSTATUS_MIE = 0"
  "mstatus_mask AND MSTATUS_MIE = 0"
  by (simp_all add: MSTATUS_MPV_def MSTATUS_MTL_def MSTATUS_MIE_def mstatus_mask_def
      MSTATUS_MXR_def MSTATUS_SUM_def MSTATUS_FS_def MSTATUS_SPP_def MSTATUS_SPIE_def
      MSTATUS_SIE_def MSTATUS64_UXL_def)

section \<open>The interrupt arbiter: masking and frame\<close>

lemma ctz64_nonneg: "0 \<le> ctz64 v"
  by (simp add: ctz64_def)

lemma irq_none_iff:
  "\<not> riscv_cpu_virt_enabled env \<Longrightarrow>
   (fst (riscv_cpu_local_irq_pending env) = EXCP_NONE) = (local_irqs env = 0)"
  using ctz64_nonneg [of "local_irqs env"]
  by (auto simp add: riscv_cpu_local_irq_pending_def Let_def EXCP_NONE_def)

lemma enable_mask:
  "g = 0 \<or> g = 1 \<Longrightarrow>
   - (if p < l \<or> (p = l \<and> g \<noteq> 0) then 1 else 0 :: 64 word) =
   (if (p :: 64 word) < l then - 1 else if p = l then - g else 0)"
  by auto

lemma local_irqs_eq:
  "local_irqs env =
     (ucast (mip env) AND mie env AND
        (if priv env < PRV_M then - 1
         else if priv env = PRV_M then - get_field (mstatus env) MSTATUS_MIE else 0) AND
        NOT (mideleg env)) OR
     (ucast (mip env) AND mie env AND
        (if priv env < PRV_S then - 1
         else if priv env = PRV_S then - get_field (mstatus env) MSTATUS_SIE else 0) AND
        mideleg env)"
  unfolding local_irqs_def Let_def
  by (simp only: enable_mask [OF get_field_MIE_cases] enable_mask [OF get_field_SIE_cases]
      and.assoc and.commute [of "NOT (mideleg env)"] and.commute [of "mideleg env"])

text \<open>
  C1 (amended). With virt mode off, the arbiter returns \<^verbatim>\<open>EXCP_NONE\<close> if and only if
  both \<open>mip & mie & M-mask & ~mideleg\<close> and \<open>mip & mie & S-mask & mideleg\<close> are zero,
  where the M-mask is all-ones below M and \<^verbatim>\<open>mstatus.MIE\<close> replicated in M, and the
  S-mask is all-ones below S, \<^verbatim>\<open>mstatus.SIE\<close> replicated in S and zero above S: a
  delegated interrupt is never taken in M-mode, whatever \<^verbatim>\<open>mstatus.SIE\<close> holds.
\<close>

theorem irq_masking_none_iff:
  assumes "\<not> riscv_cpu_virt_enabled env"
  shows "(fst (riscv_cpu_local_irq_pending env) = EXCP_NONE) =
     (ucast (mip env) AND mie env AND
        (if priv env < PRV_M then - 1
         else if priv env = PRV_M then - get_field (mstatus env) MSTATUS_MIE else 0) AND
        NOT (mideleg env) = 0 \<and>
      ucast (mip env) AND mie env AND
        (if priv env < PRV_S then - 1
         else if priv env = PRV_S then - get_field (mstatus env) MSTATUS_SIE else 0) AND
        mideleg env = 0)"
  unfolding irq_none_iff [OF assms]
  by (simp only: local_irqs_eq or_eq_0_iff)

theorem irq_masking_none_iff_witness:
  "\<not> riscv_cpu_virt_enabled deleg_irq_state \<and>
   fst (riscv_cpu_local_irq_pending deleg_irq_state) = EXCP_NONE \<and>
   ucast (mip deleg_irq_state) AND mie deleg_irq_state AND
     (if priv deleg_irq_state < PRV_S then - 1
      else if priv deleg_irq_state = PRV_S
           then - get_field (mstatus deleg_irq_state) MSTATUS_SIE else 0) AND
     mideleg deleg_irq_state = 0"
proof -
  have v: "\<not> riscv_cpu_virt_enabled deleg_irq_state" by code_simp
  have n: "fst (riscv_cpu_local_irq_pending deleg_irq_state) = EXCP_NONE" by code_simp
  from irq_masking_none_iff [OF v] n v show ?thesis by simp
qed

text \<open>
  C1 as the specification states it fails: in M-mode with \<^verbatim>\<open>mstatus.SIE\<close> set and a
  delegated interrupt pending and enabled, the arbiter returns \<^verbatim>\<open>EXCP_NONE\<close> although
  the specification's second conjunct is not zero.
\<close>

theorem irq_masking_spec_counterexample:
  "\<not> riscv_cpu_virt_enabled deleg_irq_state \<and>
   fst (riscv_cpu_local_irq_pending deleg_irq_state) = EXCP_NONE \<and>
   \<not> spec_no_interrupt deleg_irq_state"
  by code_simp

text \<open>
  C7 (amended). The arbiter changes nothing but the \<^verbatim>\<open>virt\<close> word: with virt mode on
  and an enabled VS-level interrupt pending it sets the force-HS-exception flag of
  \<^verbatim>\<open>virt\<close> and returns the lowest such interrupt; otherwise it leaves the entire hart
  state unchanged. The returned index is a function of the state at the call.
\<close>

theorem irq_pending_frame:
  "riscv_cpu_local_irq_pending env =
     (if riscv_cpu_virt_enabled env \<and> local_pending_hs_irq env \<noteq> 0
      then (ctz64 (local_pending_hs_irq env), env\<lparr>virt := virt env OR FORCE_HS_EXCEP_MASK\<rparr>)
      else (if local_irqs env \<noteq> 0 then ctz64 (local_irqs env) else EXCP_NONE, env))"
  by (simp add: riscv_cpu_local_irq_pending_def Let_def riscv_cpu_set_force_hs_excep_def
      riscv_cpu_virt_enabled_def FORCE_HS_EXCEP_MASK_def clear_then_set)

theorem irq_pending_frame_witness:
  "snd (riscv_cpu_local_irq_pending deleg_irq_state) = deleg_irq_state \<and>
   snd (riscv_cpu_local_irq_pending vs_irq_state) =
     vs_irq_state\<lparr>virt := virt vs_irq_state OR FORCE_HS_EXCEP_MASK\<rparr>"
proof -
  have a: "\<not> riscv_cpu_virt_enabled deleg_irq_state" by code_simp
  have b: "riscv_cpu_virt_enabled vs_irq_state \<and> local_pending_hs_irq vs_irq_state \<noteq> 0"
    by code_simp
  show ?thesis
    using irq_pending_frame [of deleg_irq_state] irq_pending_frame [of vs_irq_state] a b
    by simp
qed

text \<open>
  C7 as the specification states it fails: with virt mode on and a VS-level interrupt
  pending, the call changes the hart state (it sets the force-HS-exception flag).
\<close>

theorem irq_pending_pure_counterexample:
  "snd (riscv_cpu_local_irq_pending vs_irq_state) \<noteq> vs_irq_state"
proof
  assume "snd (riscv_cpu_local_irq_pending vs_irq_state) = vs_irq_state"
  then have "virt (snd (riscv_cpu_local_irq_pending vs_irq_state)) = virt vs_irq_state"
    by simp
  then show False
    by code_simp
qed

section \<open>The cause written on trap entry\<close>

lemma not_mask_63: "NOT (mask 63 :: 64 word) = 0x8000000000000000"
  by (simp add: mask_numeral)

text \<open>
  C8. For every cause and either value of the async flag, the M-mode expression
  \<^verbatim>\<open>cause | ~(((target_ulong)-1) >> async)\<close> equals the S-mode expression
  \<^verbatim>\<open>cause | (async << (XLEN-1))\<close>: it is the cause itself for a synchronous trap
  and the cause with the top bit set for an interrupt.
\<close>

theorem mcause_expression_eq:
  "mcause_value cause async = scause_value cause async \<and>
   mcause_value cause False = cause \<and>
   mcause_value cause True = cause OR push_bit 63 1"
  by (cases async)
    (simp_all add: mcause_value_def scause_value_def of_bool64_def TARGET_LONG_BITS_def
      not_mask_63)

section \<open>Swapping the background registers\<close>

lemma swap_unfold:
  "riscv_has_ext env RVH \<Longrightarrow> riscv_cpu_swap_background_regs env =
     Some (env\<lparr>vsstatus := mstatus env AND mstatus_mask,
               mstatus := (mstatus env AND NOT mstatus_mask) OR (vsstatus env AND mstatus_mask),
               vsie := mie env AND sie_mask,
               mie := (mie env AND NOT sie_mask) OR (vsie env AND sie_mask),
               vstvec := stvec env, stvec := vstvec env,
               vsscratch := sscratch env, sscratch := vsscratch env,
               vsepc := sepc env, sepc := vsepc env,
               vscause := scause env, scause := vscause env,
               vstval := sbadaddr env, sbadaddr := vstval env,
               vsatp := satp env, satp := vsatp env,
               mip := (mip env AND NOT sip_mask) OR (vsip env AND sip_mask),
               async_work := async_work env @
                 [(mip env AND NOT sip_mask) OR (vsip env AND sip_mask)],
               vsip := mip env AND sip_mask\<rparr>)"
  by (simp add: riscv_cpu_swap_background_regs_def riscv_cpu_update_mip_def Let_def
      ucast_and_down ucast_down_up)

lemma swap_has_ext: "riscv_cpu_swap_background_regs env = Some e \<Longrightarrow> riscv_has_ext e RVH"
  by (auto simp add: riscv_cpu_swap_background_regs_def riscv_cpu_update_mip_def
      riscv_has_ext_def Let_def split: if_splits)

text \<open>
  C9. With the H-extension present, \<^verbatim>\<open>swap_background_regs\<close> exchanges the S-mode
  pending bits of \<^verbatim>\<open>mip\<close> and \<^verbatim>\<open>vsip\<close>: afterwards the SSIP/STIP/SEIP bits of
  \<^verbatim>\<open>mip\<close> are those \<^verbatim>\<open>vsip\<close> had, the other bits of \<^verbatim>\<open>mip\<close> are unchanged, and
  \<^verbatim>\<open>vsip\<close> is the old \<^verbatim>\<open>mip\<close> restricted to SSIP/STIP/SEIP.
\<close>

theorem swap_exchanges_sip:
  assumes "riscv_has_ext env RVH"
  shows "\<exists>env'. riscv_cpu_swap_background_regs env = Some env' \<and>
           mip env' AND sip_mask = vsip env AND sip_mask \<and>
           mip env' AND NOT sip_mask = mip env AND NOT sip_mask \<and>
           vsip env' = mip env AND sip_mask"
  by (simp add: swap_unfold [OF assms] merge_in merge_out)

theorem swap_exchanges_sip_witness:
  "riscv_has_ext hyp_state RVH \<and>
   (\<exists>env'. riscv_cpu_swap_background_regs hyp_state = Some env' \<and>
      mip env' = 0x2A2 \<and> vsip env' = 0x022)"
proof -
  have h: "riscv_has_ext hyp_state RVH" by code_simp
  from swap_exchanges_sip [OF h] obtain env' where
    e: "riscv_cpu_swap_background_regs hyp_state = Some env'"
       "mip env' AND sip_mask = vsip hyp_state AND sip_mask"
       "mip env' AND NOT sip_mask = mip hyp_state AND NOT sip_mask"
       "vsip env' = mip hyp_state AND sip_mask"
    by blast
  have "mip env' = (mip env' AND NOT sip_mask) OR (mip env' AND sip_mask)"
    by (simp only: merge_self)
  also have "\<dots> = (mip hyp_state AND NOT sip_mask) OR (vsip hyp_state AND sip_mask)"
    by (simp only: e)
  also have "\<dots> = 0x2A2" by code_simp
  finally have m: "mip env' = 0x2A2" .
  have "mip hyp_state AND sip_mask = 0x022" by code_simp
  with e(4) have v: "vsip env' = 0x022" by simp
  from h e(1) m v show ?thesis by blast
qed

text \<open>
  C5. With the H-extension present, \<^verbatim>\<open>swap_background_regs\<close> applied twice restores
  the hart state except for the shadows it masks: \<^verbatim>\<open>mstatus\<close>, \<^verbatim>\<open>mie\<close>, \<^verbatim>\<open>mip\<close>
  and the scalar registers with their shadows are as before, \<^verbatim>\<open>vsstatus\<close>,
  \<^verbatim>\<open>vsie\<close> and \<^verbatim>\<open>vsip\<close> are as before on the swapped bits and zero elsewhere;
  only the list of notifications grows. The masking is idempotent: after the first
  application two more applications give the same registers again.
\<close>

theorem swap_twice:
  assumes "riscv_has_ext env RVH"
  shows "\<exists>e1 e2 e3.
    riscv_cpu_swap_background_regs env = Some e1 \<and>
    riscv_cpu_swap_background_regs e1 = Some e2 \<and>
    riscv_cpu_swap_background_regs e2 = Some e3 \<and>
    e2 = env\<lparr>vsstatus := vsstatus env AND mstatus_mask, vsie := vsie env AND sie_mask,
             vsip := vsip env AND sip_mask,
             async_work := async_work env @ [mip e1, mip env]\<rparr> \<and>
    e3 = e1\<lparr>async_work := async_work e1 @ [mip env, mip e1]\<rparr>"
proof -
  let ?e1 = "the (riscv_cpu_swap_background_regs env)"
  have 1: "riscv_cpu_swap_background_regs env = Some ?e1"
    by (simp add: swap_unfold [OF assms])
  have h1: "riscv_has_ext ?e1 RVH" using 1 by (rule swap_has_ext)
  let ?e2 = "the (riscv_cpu_swap_background_regs ?e1)"
  have 2: "riscv_cpu_swap_background_regs ?e1 = Some ?e2"
    by (simp add: swap_unfold [OF h1])
  have h2: "riscv_has_ext ?e2 RVH" using 2 by (rule swap_has_ext)
  let ?e3 = "the (riscv_cpu_swap_background_regs ?e2)"
  have 3: "riscv_cpu_swap_background_regs ?e2 = Some ?e3"
    by (simp add: swap_unfold [OF h2])
  have e2: "?e2 = env\<lparr>vsstatus := vsstatus env AND mstatus_mask,
             vsie := vsie env AND sie_mask, vsip := vsip env AND sip_mask,
             async_work := async_work env @ [mip ?e1, mip env]\<rparr>"
    apply (simp add: swap_unfold [OF h1])
    apply (simp add: swap_unfold [OF assms] merge_in merge_out merge_self)
    done
  have e3: "?e3 = ?e1\<lparr>async_work := async_work ?e1 @ [mip env, mip ?e1]\<rparr>"
    apply (simp add: swap_unfold [OF h2])
    apply (simp add: e2)
    apply (simp add: swap_unfold [OF assms] merge_in merge_out merge_self)
    done
  show ?thesis
    using 1 2 3 e2 e3 by blast
qed

theorem swap_twice_witness:
  "riscv_has_ext hyp_state RVH \<and>
   (\<exists>e1 e2. riscv_cpu_swap_background_regs hyp_state = Some e1 \<and>
      riscv_cpu_swap_background_regs e1 = Some e2 \<and>
      mstatus e2 = mstatus hyp_state \<and> mip e2 = mip hyp_state \<and>
      stvec e2 = stvec hyp_state \<and> vstvec e2 = vstvec hyp_state \<and>
      vsip e2 = 0x222 \<and> vsstatus e2 = 0x6100)"
proof -
  have h: "riscv_has_ext hyp_state RVH" by code_simp
  from swap_twice [OF h] obtain e1 e2 where
    e: "riscv_cpu_swap_background_regs hyp_state = Some e1"
       "riscv_cpu_swap_background_regs e1 = Some e2"
       "e2 = hyp_state\<lparr>vsstatus := vsstatus hyp_state AND mstatus_mask,
               vsie := vsie hyp_state AND sie_mask, vsip := vsip hyp_state AND sip_mask,
               async_work := async_work hyp_state @ [mip e1, mip hyp_state]\<rparr>"
    by blast
  have a: "vsip hyp_state AND sip_mask = 0x222" by code_simp
  have b: "vsstatus hyp_state AND mstatus_mask = 0x6100" by code_simp
  from e(3) a b have "mstatus e2 = mstatus hyp_state \<and> mip e2 = mip hyp_state \<and>
      stvec e2 = stvec hyp_state \<and> vstvec e2 = vstvec hyp_state \<and>
      vsip e2 = 0x222 \<and> vsstatus e2 = 0x6100"
    by simp
  with h e(1,2) show ?thesis by blast
qed

section \<open>Trap entry\<close>

lemma virt_enabled_has_ext: "riscv_cpu_virt_enabled env \<Longrightarrow> riscv_has_ext env RVH"
  by (simp add: riscv_cpu_virt_enabled_def split: if_splits)

lemma set_virt_enabled_fields:
  "priv (riscv_cpu_set_virt_enabled env b) = priv env"
  "priv_ver (riscv_cpu_set_virt_enabled env b) = priv_ver env"
  "pc (riscv_cpu_set_virt_enabled env b) = pc env"
  "mtvec (riscv_cpu_set_virt_enabled env b) = mtvec env"
  "mstatus (riscv_cpu_set_virt_enabled env b) = mstatus env"
  by (simp_all add: riscv_cpu_set_virt_enabled_def Let_def)

lemma hyp_helpers_fields:
  "priv (riscv_cpu_set_force_hs_excep env b) = priv env"
  "priv_ver (riscv_cpu_set_force_hs_excep env b) = priv_ver env"
  "priv (hs_trap_hstatus env) = priv env"
  "priv_ver (hs_trap_hstatus env) = priv_ver env"
  by (simp_all add: riscv_cpu_set_force_hs_excep_def hs_trap_hstatus_def Let_def)

text \<open>The H-extension part of the M-mode arm never fails and keeps what the rest of
  the arm reads.\<close>

lemma trap_mmode_hyp_props:
  "\<exists>e. trap_mmode_hyp env = Some e \<and> priv e = priv env \<and> priv_ver e = priv_ver env \<and>
       pc e = pc env \<and> mtvec e = mtvec env \<and>
       get_field (mstatus e) MSTATUS_MIE = get_field (mstatus env) MSTATUS_MIE"
proof (cases "riscv_has_ext env RVH")
  case False
  then show ?thesis by (simp add: trap_mmode_hyp_def)
next
  case True
  show ?thesis
  proof (cases "riscv_cpu_virt_enabled env")
    case v: True
    show ?thesis
      by (simp add: trap_mmode_hyp_def True v swap_unfold Let_def set_virt_enabled_fields
          get_field_set_field_other get_field_merge_other MIE_disjoint)
  next
    case v: False
    show ?thesis
      by (simp add: trap_mmode_hyp_def True v Let_def set_virt_enabled_fields
          get_field_set_field_other MIE_disjoint)
  qed
qed

lemma trap_smode_hyp_props:
  "\<exists>e. trap_smode_hyp env async cause = Some e \<and> priv e = priv env \<and>
       priv_ver e = priv_ver env"
proof (cases "riscv_cpu_virt_enabled env")
  case True
  then have h: "riscv_has_ext env RVH" by (rule virt_enabled_has_ext)
  show ?thesis
    by (simp add: trap_smode_hyp_def h True swap_unfold Let_def hyp_helpers_fields
        set_virt_enabled_fields)
next
  case False
  then show ?thesis
    by (simp add: trap_smode_hyp_def Let_def hyp_helpers_fields)
qed

lemma prev_ie_M:
  assumes "priv e \<le> 3"
  shows "\<exists>ie. prev_ie e (mstatus e) MSTATUS_MIE = Some ie \<and> (ie = 0 \<or> ie = 1) \<and>
      (priv_ver e \<ge> PRIV_VERSION_1_10_0 \<or> priv e = PRV_M \<longrightarrow>
         ie = get_field (mstatus e) MSTATUS_MIE) \<and>
      (priv_ver e < PRIV_VERSION_1_10_0 \<longrightarrow>
         ie = get_field (mstatus e) (push_bit (unat (priv e)) MSTATUS_UIE))"
proof -
  from assms have "unat (priv e) \<le> 3" by (simp add: word_le_nat_alt)
  then have lt: "\<not> 31 \<le> unat (priv e)" by simp
  show ?thesis
    using get_field_MIE_cases [of "mstatus e"]
      get_field_UIE_shift_cases [OF assms, of "mstatus e"]
    by (auto simp add: prev_ie_def lt UIE_shift_M)
qed

lemma ecall_cause_sync:
  assumes "priv env \<le> PRV_M" "c \<le> 15"
  shows "\<exists>c'. ecall_cause env False c = Some c' \<and> c' \<le> 15 \<and>
           (c \<noteq> RISCV_EXCP_U_ECALL \<or> priv env = PRV_U \<longrightarrow> c' = c)"
  using assms
  by (auto simp add: ecall_cause_def PRV_M_def PRV_S_def PRV_U_def RISCV_EXCP_U_ECALL_def
      RISCV_EXCP_M_ECALL_def RISCV_EXCP_VS_ECALL_def RISCV_EXCP_HS_ECALL_def)

lemma set_mode_M: "riscv_cpu_set_mode e PRV_M = Some (e\<lparr>priv := PRV_M, load_res := - 1\<rparr>)"
  by (simp add: riscv_cpu_set_mode_def PRV_M_def PRV_H_def)

lemma set_mode_S: "riscv_cpu_set_mode e PRV_S = Some (e\<lparr>priv := PRV_S, load_res := - 1\<rparr>)"
  by (simp add: riscv_cpu_set_mode_def PRV_M_def PRV_H_def PRV_S_def PRV_U_def)

text \<open>The M-mode arm on a synchronous cause, from a privilege up to M.\<close>

lemma trap_mmode_sync:
  assumes p: "priv env \<le> PRV_M"
  shows "\<exists>env'. trap_mmode env False c tval = Some env' \<and>
           mepc env' = pc env \<and> mcause env' = c \<and>
           get_field (mstatus env') MSTATUS_MPP = priv env \<and>
           (priv_ver env \<ge> PRIV_VERSION_1_10_0 \<or> priv env = PRV_M \<longrightarrow>
              get_field (mstatus env') MSTATUS_MPIE = get_field (mstatus env) MSTATUS_MIE) \<and>
           (priv_ver env < PRIV_VERSION_1_10_0 \<longrightarrow>
              get_field (mstatus env') MSTATUS_MPIE =
              get_field (mstatus (the (trap_mmode_hyp env)))
                (push_bit (unat (priv env)) MSTATUS_UIE)) \<and>
           get_field (mstatus env') MSTATUS_MIE = 0 \<and>
           priv env' = PRV_M \<and> pc env' = mtvec env AND NOT 3"
proof -
  from trap_mmode_hyp_props [of env] obtain e where
    e: "trap_mmode_hyp env = Some e" "priv e = priv env" "priv_ver e = priv_ver env"
       "pc e = pc env" "mtvec e = mtvec env"
       "get_field (mstatus e) MSTATUS_MIE = get_field (mstatus env) MSTATUS_MIE"
    by blast
  from p have p3: "priv e \<le> 3" by (simp add: e PRV_M_def)
  from prev_ie_M [OF p3] obtain ie where
    ie: "prev_ie e (mstatus e) MSTATUS_MIE = Some ie" "ie = 0 \<or> ie = 1"
        "priv_ver e \<ge> PRIV_VERSION_1_10_0 \<or> priv e = PRV_M \<longrightarrow>
           ie = get_field (mstatus e) MSTATUS_MIE"
        "priv_ver e < PRIV_VERSION_1_10_0 \<longrightarrow>
           ie = get_field (mstatus e) (push_bit (unat (priv e)) MSTATUS_UIE)"
    by blast
  define s where
    "s = set_field (set_field (set_field (mstatus e) MSTATUS_MPIE ie) MSTATUS_MPP (priv e))
           MSTATUS_MIE 0"
  define env' where
    "env' = e\<lparr>mstatus := s, mcause := c, mepc := pc e, mbadaddr := tval,
               pc := mtvec e AND NOT 3, priv := PRV_M, load_res := - 1\<rparr>"
  have t: "trap_mmode env False c tval = Some env'"
    by (simp add: trap_mmode_def e ie Let_def set_mode_M trap_pc_def mcause_value_def tvec_base
        env'_def s_def)
  have f: "mepc env' = pc env" "mcause env' = c" "priv env' = PRV_M"
    "pc env' = mtvec env AND NOT 3" "mstatus env' = s"
    by (simp_all add: env'_def e)
  have mpp: "get_field s MSTATUS_MPP = priv env"
    by (simp add: s_def get_field_set_field_other M_fields_disjoint get_set_MPP p3 e [symmetric])
  have mpie: "get_field s MSTATUS_MPIE = ie"
    by (simp add: s_def get_field_set_field_other M_fields_disjoint get_set_MPIE ie(2))
  have mie: "get_field s MSTATUS_MIE = 0"
    by (simp add: s_def get_set_MIE)
  have a: "priv_ver env \<ge> PRIV_VERSION_1_10_0 \<or> priv env = PRV_M \<longrightarrow>
              get_field (mstatus env') MSTATUS_MPIE = get_field (mstatus env) MSTATUS_MIE"
    using ie(3) by (simp only: f mpie e)
  have b: "priv_ver env < PRIV_VERSION_1_10_0 \<longrightarrow>
              get_field (mstatus env') MSTATUS_MPIE =
              get_field (mstatus (the (trap_mmode_hyp env)))
                (push_bit (unat (priv env)) MSTATUS_UIE)"
    using ie(4) by (simp only: f mpie e option.sel)
  have mpp': "get_field (mstatus env') MSTATUS_MPP = priv env" by (simp only: f mpp)
  have mie': "get_field (mstatus env') MSTATUS_MIE = 0" by (simp only: f mie)
  show ?thesis
    by (intro exI [of _ env'] conjI) (rule t f(1-4) a b mpp' mie')+
qed

text \<open>The S-mode arm on a synchronous cause, from a privilege up to S.\<close>

lemma trap_smode_sync:
  assumes p: "priv env \<le> PRV_S"
  shows "\<exists>env'. trap_smode env False c tval = Some env' \<and> scause env' = c"
proof -
  from trap_smode_hyp_props [of env False c] obtain e where
    e: "trap_smode_hyp env False c = Some e" "priv e = priv env" "priv_ver e = priv_ver env"
    by blast
  from p have "unat (priv e) \<le> 1" by (simp add: e PRV_S_def word_le_nat_alt)
  then have lt: "\<not> 31 \<le> unat (priv e)" by simp
  have "\<exists>ie. prev_ie e (mstatus e) MSTATUS_SIE = Some ie"
    by (simp add: prev_ie_def lt)
  then obtain ie where ie: "prev_ie e (mstatus e) MSTATUS_SIE = Some ie" ..
  show ?thesis
    by (simp add: trap_smode_def e ie Let_def set_mode_S scause_value_def of_bool64_def)
qed

lemma do_interrupt_sync:
  assumes sync: "exception_index env AND RISCV_EXCP_INT_FLAG = 0"
    and c: "ucast (exception_index env AND RISCV_EXCP_INT_MASK) = c"
    and c': "ecall_cause env False c = Some c'"
  shows "riscv_cpu_do_interrupt env =
     (case (if trap_in_smode env (medeleg env) c'
            then trap_smode env False c' (trap_tval env False c)
            else trap_mmode env False c' (trap_tval env False c)) of
        None \<Rightarrow> None
      | Some env' \<Rightarrow> Some (env'\<lparr>exception_index := word_of_int EXCP_NONE\<rparr>))"
  by (simp add: riscv_cpu_do_interrupt_def sync c c' Let_def)

text \<open>
  C2 (amended). For every pre-state with a privilege up to M and every synchronous cause
  \<open>c \<le> 15\<close>: the cause \<open>c'\<close> that is recorded is \<open>c\<close>, except that an environment call
  (\<^verbatim>\<open>U_ECALL\<close>) taken above U-mode is retargeted by the privilege. When \<^verbatim>\<open>medeleg\<close>
  does not send \<open>c'\<close> to S-mode, \<^verbatim>\<open>do_interrupt\<close> returns and leaves \<^verbatim>\<open>mepc\<close> = old
  \<^verbatim>\<open>pc\<close>, the code field of \<^verbatim>\<open>mcause\<close> = \<open>c'\<close> with the top bit clear,
  \<^verbatim>\<open>mstatus.MPP\<close> = old privilege, \<^verbatim>\<open>mstatus.MIE\<close> = 0, privilege M and \<^verbatim>\<open>pc\<close> =
  \<^verbatim>\<open>mtvec & ~3\<close>; \<^verbatim>\<open>mstatus.MPIE\<close> is the old \<^verbatim>\<open>mstatus.MIE\<close> from privilege version
  1.10 on or when the trap comes from M-mode, and on a legacy version it is the bit
  \<^verbatim>\<open>MSTATUS_UIE << priv\<close> of \<^verbatim>\<open>mstatus\<close> as the H-extension part of the entry
  leaves it.
\<close>

theorem trap_entry_mmode:
  assumes sync: "exception_index env AND RISCV_EXCP_INT_FLAG = 0"
    and c: "ucast (exception_index env AND RISCV_EXCP_INT_MASK) = c"
    and c15: "c \<le> 15"
    and p: "priv env \<le> PRV_M"
  shows "\<exists>c'. ecall_cause env False c = Some c' \<and>
           (c \<noteq> RISCV_EXCP_U_ECALL \<or> priv env = PRV_U \<longrightarrow> c' = c) \<and>
           (\<not> trap_in_smode env (medeleg env) c' \<longrightarrow>
            (\<exists>env'. riscv_cpu_do_interrupt env = Some env' \<and>
               mepc env' = pc env \<and>
               take_bit 63 (mcause env') = c' \<and> \<not> bit (mcause env') 63 \<and>
               get_field (mstatus env') MSTATUS_MPP = priv env \<and>
               (priv_ver env \<ge> PRIV_VERSION_1_10_0 \<or> priv env = PRV_M \<longrightarrow>
                  get_field (mstatus env') MSTATUS_MPIE = get_field (mstatus env) MSTATUS_MIE) \<and>
               (priv_ver env < PRIV_VERSION_1_10_0 \<longrightarrow>
                  get_field (mstatus env') MSTATUS_MPIE =
                  get_field (mstatus (the (trap_mmode_hyp env)))
                    (push_bit (unat (priv env)) MSTATUS_UIE)) \<and>
               get_field (mstatus env') MSTATUS_MIE = 0 \<and>
               priv env' = PRV_M \<and> pc env' = mtvec env AND NOT 3))"
proof -
  from ecall_cause_sync [OF p c15] obtain c' where
    c': "ecall_cause env False c = Some c'" "c' \<le> 15"
        "c \<noteq> RISCV_EXCP_U_ECALL \<or> priv env = PRV_U \<longrightarrow> c' = c"
    by blast
  from trap_mmode_sync [OF p, of c' "trap_tval env False c"] obtain e where
    e: "trap_mmode env False c' (trap_tval env False c) = Some e"
       "mepc e = pc env" "mcause e = c'"
       "get_field (mstatus e) MSTATUS_MPP = priv env"
       "priv_ver env \<ge> PRIV_VERSION_1_10_0 \<or> priv env = PRV_M \<longrightarrow>
          get_field (mstatus e) MSTATUS_MPIE = get_field (mstatus env) MSTATUS_MIE"
       "priv_ver env < PRIV_VERSION_1_10_0 \<longrightarrow>
          get_field (mstatus e) MSTATUS_MPIE =
          get_field (mstatus (the (trap_mmode_hyp env))) (push_bit (unat (priv env)) MSTATUS_UIE)"
       "get_field (mstatus e) MSTATUS_MIE = 0"
       "priv e = PRV_M" "pc e = mtvec env AND NOT 3"
    by blast
  have "\<not> trap_in_smode env (medeleg env) c' \<longrightarrow>
            (\<exists>env'. riscv_cpu_do_interrupt env = Some env' \<and>
               mepc env' = pc env \<and>
               take_bit 63 (mcause env') = c' \<and> \<not> bit (mcause env') 63 \<and>
               get_field (mstatus env') MSTATUS_MPP = priv env \<and>
               (priv_ver env \<ge> PRIV_VERSION_1_10_0 \<or> priv env = PRV_M \<longrightarrow>
                  get_field (mstatus env') MSTATUS_MPIE = get_field (mstatus env) MSTATUS_MIE) \<and>
               (priv_ver env < PRIV_VERSION_1_10_0 \<longrightarrow>
                  get_field (mstatus env') MSTATUS_MPIE =
                  get_field (mstatus (the (trap_mmode_hyp env)))
                    (push_bit (unat (priv env)) MSTATUS_UIE)) \<and>
               get_field (mstatus env') MSTATUS_MIE = 0 \<and>
               priv env' = PRV_M \<and> pc env' = mtvec env AND NOT 3)"
  proof
    assume nd: "\<not> trap_in_smode env (medeleg env) c'"
    have d: "riscv_cpu_do_interrupt env = Some (e\<lparr>exception_index := word_of_int EXCP_NONE\<rparr>)"
      by (simp add: do_interrupt_sync [OF sync c c'(1)] nd e(1))
    show "\<exists>env'. riscv_cpu_do_interrupt env = Some env' \<and>
               mepc env' = pc env \<and>
               take_bit 63 (mcause env') = c' \<and> \<not> bit (mcause env') 63 \<and>
               get_field (mstatus env') MSTATUS_MPP = priv env \<and>
               (priv_ver env \<ge> PRIV_VERSION_1_10_0 \<or> priv env = PRV_M \<longrightarrow>
                  get_field (mstatus env') MSTATUS_MPIE = get_field (mstatus env) MSTATUS_MIE) \<and>
               (priv_ver env < PRIV_VERSION_1_10_0 \<longrightarrow>
                  get_field (mstatus env') MSTATUS_MPIE =
                  get_field (mstatus (the (trap_mmode_hyp env)))
                    (push_bit (unat (priv env)) MSTATUS_UIE)) \<and>
               get_field (mstatus env') MSTATUS_MIE = 0 \<and>
               priv env' = PRV_M \<and> pc env' = mtvec env AND NOT 3"
      using e(2-) small_cause [OF c'(2)]
      by (intro exI [of _ "e\<lparr>exception_index := word_of_int EXCP_NONE\<rparr>"] conjI d) simp_all
  qed
  with c'(1,3) show ?thesis by (intro exI [of _ c'] conjI)
qed

theorem trap_entry_mmode_witness:
  "\<exists>env'. riscv_cpu_do_interrupt illegal_s_state = Some env' \<and>
     mepc env' = 0x80000000 \<and>
     take_bit 63 (mcause env') = 2 \<and> \<not> bit (mcause env') 63 \<and>
     get_field (mstatus env') MSTATUS_MPP = PRV_S \<and>
     get_field (mstatus env') MSTATUS_MPIE = 1 \<and>
     get_field (mstatus env') MSTATUS_MIE = 0 \<and>
     priv env' = PRV_M \<and> pc env' = 0x80001000"
proof -
  have h: "exception_index illegal_s_state AND RISCV_EXCP_INT_FLAG = 0"
    "ucast (exception_index illegal_s_state AND RISCV_EXCP_INT_MASK) = (2 :: 64 word)"
    "(2 :: 64 word) \<le> 15" "priv illegal_s_state \<le> PRV_M"
    by code_simp+
  have k: "ecall_cause illegal_s_state False 2 = Some 2"
    "\<not> trap_in_smode illegal_s_state (medeleg illegal_s_state) 2"
    "priv_ver illegal_s_state \<ge> PRIV_VERSION_1_10_0"
    by code_simp+
  have v: "pc illegal_s_state = 0x80000000" "priv illegal_s_state = PRV_S"
    "get_field (mstatus illegal_s_state) MSTATUS_MIE = 1"
    "mtvec illegal_s_state AND NOT 3 = 0x80001000"
    by code_simp+
  from trap_entry_mmode [OF h] k obtain env' where
    "riscv_cpu_do_interrupt illegal_s_state = Some env'"
    "mepc env' = pc illegal_s_state" "take_bit 63 (mcause env') = 2" "\<not> bit (mcause env') 63"
    "get_field (mstatus env') MSTATUS_MPP = priv illegal_s_state"
    "get_field (mstatus env') MSTATUS_MPIE = get_field (mstatus illegal_s_state) MSTATUS_MIE"
    "get_field (mstatus env') MSTATUS_MIE = 0"
    "priv env' = PRV_M" "pc env' = mtvec illegal_s_state AND NOT 3"
    by auto
  then show ?thesis using v by (intro exI [of _ env']) simp
qed

text \<open>
  C2 as the specification states it fails twice. An environment call (cause 8) from
  M-mode, not delegated, leaves \<^verbatim>\<open>mcause\<close> = 11 (\<^verbatim>\<open>M_ECALL\<close>), not 8. On a legacy
  privilege version an illegal instruction from S-mode with \<^verbatim>\<open>mstatus.MIE\<close> = 1 and
  \<^verbatim>\<open>mstatus.SIE\<close> = 0 leaves \<^verbatim>\<open>mstatus.MPIE\<close> = 0: the entry saves the SIE bit.
\<close>

theorem trap_entry_counterexample:
  "exception_index ecall_m_state AND RISCV_EXCP_INT_FLAG = 0 \<and>
   ucast (exception_index ecall_m_state AND RISCV_EXCP_INT_MASK) = RISCV_EXCP_U_ECALL \<and>
   RISCV_EXCP_U_ECALL \<le> 15 \<and>
   \<not> trap_in_smode ecall_m_state (medeleg ecall_m_state) RISCV_EXCP_U_ECALL \<and>
   map_option mcause (riscv_cpu_do_interrupt ecall_m_state) = Some RISCV_EXCP_M_ECALL \<and>
   take_bit 63 RISCV_EXCP_M_ECALL \<noteq> RISCV_EXCP_U_ECALL \<and>
   exception_index legacy_s_state AND RISCV_EXCP_INT_FLAG = 0 \<and>
   ucast (exception_index legacy_s_state AND RISCV_EXCP_INT_MASK) = (2 :: target_ulong) \<and>
   \<not> trap_in_smode legacy_s_state (medeleg legacy_s_state) 2 \<and>
   get_field (mstatus legacy_s_state) MSTATUS_MIE = 1 \<and>
   map_option mstatus (riscv_cpu_do_interrupt legacy_s_state) = Some 0x800 \<and>
   get_field 0x800 MSTATUS_MPIE = 0"
  by code_simp

text \<open>
  C6. A synchronous trap entered with cause \<^verbatim>\<open>U_ECALL\<close> from U, S or M returns, and
  the cause it records (in \<^verbatim>\<open>scause\<close> when the trap is handled in S-mode, in
  \<^verbatim>\<open>mcause\<close> otherwise) is \<^verbatim>\<open>M_ECALL\<close> from M, \<^verbatim>\<open>VS_ECALL\<close> from S with virt on,
  \<^verbatim>\<open>HS_ECALL\<close> from S with virt off and \<^verbatim>\<open>U_ECALL\<close> from U.
\<close>

theorem ecall_refinement:
  assumes sync: "exception_index env AND RISCV_EXCP_INT_FLAG = 0"
    and c: "ucast (exception_index env AND RISCV_EXCP_INT_MASK) = RISCV_EXCP_U_ECALL"
    and p: "priv env = PRV_U \<or> priv env = PRV_S \<or> priv env = PRV_M"
  shows "\<exists>c' env'.
           c' = (if priv env = PRV_M then RISCV_EXCP_M_ECALL
                 else if priv env = PRV_S \<and> riscv_cpu_virt_enabled env then RISCV_EXCP_VS_ECALL
                 else if priv env = PRV_S then RISCV_EXCP_HS_ECALL
                 else RISCV_EXCP_U_ECALL) \<and>
           riscv_cpu_do_interrupt env = Some env' \<and>
           (if trap_in_smode env (medeleg env) c' then scause env' = c' else mcause env' = c')"
proof -
  define c' where "c' = (if priv env = PRV_M then RISCV_EXCP_M_ECALL
                 else if priv env = PRV_S \<and> riscv_cpu_virt_enabled env then RISCV_EXCP_VS_ECALL
                 else if priv env = PRV_S then RISCV_EXCP_HS_ECALL
                 else RISCV_EXCP_U_ECALL)"
  from p have pm: "priv env \<le> PRV_M" by (auto simp add: PRV_M_def PRV_S_def PRV_U_def)
  have ec: "ecall_cause env False RISCV_EXCP_U_ECALL = Some c'"
    using p by (auto simp add: ecall_cause_def c'_def PRV_M_def PRV_S_def PRV_U_def)
  note d = do_interrupt_sync [OF sync c ec]
  have "\<exists>env'. riscv_cpu_do_interrupt env = Some env' \<and>
           (if trap_in_smode env (medeleg env) c' then scause env' = c' else mcause env' = c')"
  proof (cases "trap_in_smode env (medeleg env) c'")
    case True
    then have "priv env \<le> PRV_S" by (simp add: trap_in_smode_def)
    from trap_smode_sync [OF this, of c' "trap_tval env False RISCV_EXCP_U_ECALL"]
    obtain e where "trap_smode env False c' (trap_tval env False RISCV_EXCP_U_ECALL) = Some e"
      "scause e = c'" by blast
    then show ?thesis by (simp add: d True)
  next
    case False
    from trap_mmode_sync [OF pm, of c' "trap_tval env False RISCV_EXCP_U_ECALL"]
    obtain e where "trap_mmode env False c' (trap_tval env False RISCV_EXCP_U_ECALL) = Some e"
      "mcause e = c'" by blast
    then show ?thesis by (simp add: d False)
  qed
  then show ?thesis unfolding c'_def by blast
qed

theorem ecall_refinement_witness:
  "\<exists>env'. riscv_cpu_do_interrupt vs_ecall_state = Some env' \<and>
           scause env' = RISCV_EXCP_VS_ECALL"
proof -
  have h: "exception_index vs_ecall_state AND RISCV_EXCP_INT_FLAG = 0"
    "ucast (exception_index vs_ecall_state AND RISCV_EXCP_INT_MASK) = RISCV_EXCP_U_ECALL"
    "priv vs_ecall_state = PRV_U \<or> priv vs_ecall_state = PRV_S \<or> priv vs_ecall_state = PRV_M"
    by code_simp+
  have k: "priv vs_ecall_state \<noteq> PRV_M"
    "priv vs_ecall_state = PRV_S \<and> riscv_cpu_virt_enabled vs_ecall_state"
    "trap_in_smode vs_ecall_state (medeleg vs_ecall_state) RISCV_EXCP_VS_ECALL"
    by code_simp+
  from ecall_refinement [OF h] k show ?thesis by auto
qed

section \<open>Address translation\<close>

text \<open>
  C4. For every virtual address, when the access is made with M-mode's index and
  \<^verbatim>\<open>mstatus.MPRV\<close> clear, or the MMU feature is absent, or the active translation mode
  (\<^verbatim>\<open>satp.MODE\<close>, \<^verbatim>\<open>mstatus.VM\<close> on a legacy version) is Bare, the translation
  succeeds with the physical address equal to the virtual one and protection
  Read|Write|Execute; memory is untouched and no page-table entry is loaded.
\<close>

theorem translate_identity:
  assumes "(mmu_idx = uint PRV_M \<and> get_field (mstatus env) MSTATUS_MPRV = 0) \<or>
           \<not> riscv_feature env RISCV_FEATURE_MMU \<or> active_vm env = MBARE"
  shows "get_physical_address env pmp ram others mem va acc mmu_idx first_stage =
           (TRANSLATE_SUCCESS va (PAGE_READ OR PAGE_WRITE OR PAGE_EXEC), mem, [])"
  using assms
  by (auto simp add: get_physical_address_def effective_mode_def Let_def)

theorem translate_identity_witness:
  "get_physical_address reset_state pmp_allow all_ram [] all_interior_mem 0x1234
     MMU_DATA_LOAD (uint PRV_M) True =
     (TRANSLATE_SUCCESS 0x1234 (PAGE_READ OR PAGE_WRITE OR PAGE_EXEC), all_interior_mem, []) \<and>
   get_physical_address (sv39_state\<lparr>satp := 0x80080\<rparr>) pmp_allow all_ram []
     all_interior_mem 0x1234 MMU_INST_FETCH (uint PRV_S) True =
     (TRANSLATE_SUCCESS 0x1234 (PAGE_READ OR PAGE_WRITE OR PAGE_EXEC), all_interior_mem, [])"
proof -
  have a: "get_field (mstatus reset_state) MSTATUS_MPRV = 0" by code_simp
  have b: "active_vm (sv39_state\<lparr>satp := 0x80080\<rparr>) = MBARE" by code_simp
  show ?thesis
    using translate_identity [of "uint PRV_M" reset_state pmp_allow all_ram "[]"
        all_interior_mem "0x1234" MMU_DATA_LOAD True]
      translate_identity [of "uint PRV_S" "sv39_state\<lparr>satp := 0x80080\<rparr>" pmp_allow all_ram "[]"
        all_interior_mem "0x1234" MMU_INST_FETCH True]
      a b
    by simp
qed

lemma msbs_sign_extended:
  fixes va :: "64 word"
  assumes n: "n < 64"
    and m: "drop_bit n va AND mask (64 - n) = 0 \<or>
            drop_bit n va AND mask (64 - n) = mask (64 - n)"
  shows "sign_extended va (Suc n)"
proof -
  have b: "bit (drop_bit n va AND mask (64 - n)) j = bit va (n + j)" if "n + j < 64" for j
    using that by (auto simp add: bit_simps)
  from m show ?thesis
  proof
    assume z: "drop_bit n va AND mask (64 - n) = 0"
    have "\<not> bit va k" if "n \<le> k" "k < 64" for k
    proof -
      from that have "bit (drop_bit n va AND mask (64 - n)) (k - n) = bit va k"
        using b [of "k - n"] by simp
      then show ?thesis by (simp add: z)
    qed
    then show ?thesis by (simp add: sign_extended_def list_all_iff n)
  next
    assume z: "drop_bit n va AND mask (64 - n) = mask (64 - n)"
    have "bit va k" if "n \<le> k" "k < 64" for k
    proof -
      from that have "bit (drop_bit n va AND mask (64 - n)) (k - n) = bit va k"
        using b [of "k - n"] by simp
      moreover from that have "k - n < 64 - n" "k - n < 64" by arith+
      ultimately show ?thesis by (simp add: z bit_simps)
    qed
    then show ?thesis using n by (simp add: sign_extended_def list_all_iff)
  qed
qed

lemma sign_extended_msbs:
  fixes va :: "64 word"
  assumes n: "n < 64" and s: "sign_extended va (Suc n)"
  shows "drop_bit n va AND mask (64 - n) = 0 \<or>
         drop_bit n va AND mask (64 - n) = mask (64 - n)"
proof (cases "bit va n")
  case True
  with s have "bit va k" if "n \<le> k" "k < 64" for k
    using that by (simp add: sign_extended_def list_all_iff)
  then have "drop_bit n va AND mask (64 - n) = mask (64 - n)"
    by (intro bit_word_eqI) (auto simp add: bit_simps)
  then show ?thesis ..
next
  case False
  with s have "\<not> bit va k" if "n \<le> k" "k < 64" for k
    using that by (simp add: sign_extended_def list_all_iff)
  then have "drop_bit n va AND mask (64 - n) = 0"
    by (intro bit_word_eqI) (auto simp add: bit_simps)
  then show ?thesis ..
qed

lemma active_vm_SV:
  "active_vm env = SV lv pbits psz \<Longrightarrow>
     (lv = 2 \<and> pbits = 10 \<and> psz = 4) \<or> (lv = 3 \<and> pbits = 9 \<and> psz = 8) \<or>
     (lv = 4 \<and> pbits = 9 \<and> psz = 8) \<or> (lv = 5 \<and> pbits = 9 \<and> psz = 8)"
  by (auto simp add: active_vm_def switch_vm_1_10_def switch_vm_1_09_def split: if_splits)

lemma noncanonical_fail:
  assumes mode: "effective_mode env acc mmu_idx \<noteq> uint PRV_M"
    and mmu: "riscv_feature env RISCV_FEATURE_MMU"
    and vm: "active_vm env = SV lv pbits psz"
    and vb: "PGSHIFT + lv * pbits = int (Suc n)"
    and n: "n < 64"
    and nc: "\<not> sign_extended va (Suc n)"
  shows "get_physical_address env pmp ram others mem va acc mmu_idx first_stage =
           (TRANSLATE_FAIL, mem, [])"
proof -
  from nc msbs_sign_extended [OF n, of va]
  have key: "drop_bit n va AND mask (64 - n) \<noteq> 0"
    "drop_bit n va AND mask (64 - n) \<noteq> mask (64 - n)"
    by blast+
  have e: "nat (int TARGET_LONG_BITS - (int (Suc n) - 1)) = 64 - n" "nat (int (Suc n) - 1) = n"
    using n by (simp_all add: TARGET_LONG_BITS_def)
  show ?thesis
    unfolding get_physical_address_def Let_def
    by (simp only: mode mmu vm vb e push_bit_1_minus_1 key vm_switch.case if_False if_True
        not_True_eq_False simp_thms)
qed

text \<open>
  C3. For every effective mode other than M (in particular every mode below M), with
  the MMU present and an Sv translation mode active, a virtual address whose bits from
  position \<open>va_bits - 1\<close> upwards are not all equal to bit \<open>va_bits - 1\<close> (with
  \<open>va_bits = PGSHIFT + levels * ptidxbits\<close>) is rejected: the translation returns Fail,
  before any page-table entry is loaded.
\<close>

theorem noncanonical_address_fails:
  assumes mode: "effective_mode env acc mmu_idx \<noteq> uint PRV_M"
    and mmu: "riscv_feature env RISCV_FEATURE_MMU"
    and vm: "active_vm env = SV lv pbits psz"
    and nc: "\<not> sign_extended va (nat (PGSHIFT + lv * pbits))"
  shows "get_physical_address env pmp ram others mem va acc mmu_idx first_stage =
           (TRANSLATE_FAIL, mem, [])"
proof -
  from active_vm_SV [OF vm] consider
    "lv = 2 \<and> pbits = 10" | "lv = 3 \<and> pbits = 9" | "lv = 4 \<and> pbits = 9" | "lv = 5 \<and> pbits = 9"
    by blast
  then show ?thesis
  proof cases
    case 1
    with nc have a: "PGSHIFT + lv * pbits = int (Suc 31)" and b: "\<not> sign_extended va (Suc 31)"
      by (simp_all add: PGSHIFT_def)
    show ?thesis by (rule noncanonical_fail [OF mode mmu vm a _ b]) simp
  next
    case 2
    with nc have a: "PGSHIFT + lv * pbits = int (Suc 38)" and b: "\<not> sign_extended va (Suc 38)"
      by (simp_all add: PGSHIFT_def)
    show ?thesis by (rule noncanonical_fail [OF mode mmu vm a _ b]) simp
  next
    case 3
    with nc have a: "PGSHIFT + lv * pbits = int (Suc 47)" and b: "\<not> sign_extended va (Suc 47)"
      by (simp_all add: PGSHIFT_def)
    show ?thesis by (rule noncanonical_fail [OF mode mmu vm a _ b]) simp
  next
    case 4
    with nc have a: "PGSHIFT + lv * pbits = int (Suc 56)" and b: "\<not> sign_extended va (Suc 56)"
      by (simp_all add: PGSHIFT_def)
    show ?thesis by (rule noncanonical_fail [OF mode mmu vm a _ b]) simp
  qed
qed

theorem noncanonical_address_fails_witness:
  "effective_mode sv39_state MMU_DATA_LOAD (uint PRV_S) \<noteq> uint PRV_M \<and>
   riscv_feature sv39_state RISCV_FEATURE_MMU \<and>
   active_vm sv39_state = SV 3 9 8 \<and>
   \<not> sign_extended 0x800000000000 39 \<and>
   get_physical_address sv39_state pmp_allow all_ram [] all_interior_mem 0x800000000000
     MMU_DATA_LOAD (uint PRV_S) True = (TRANSLATE_FAIL, all_interior_mem, [])"
proof -
  have h: "effective_mode sv39_state MMU_DATA_LOAD (uint PRV_S) \<noteq> uint PRV_M"
    "riscv_feature sv39_state RISCV_FEATURE_MMU"
    "active_vm sv39_state = SV 3 9 8"
    by code_simp+
  have n: "\<not> sign_extended 0x800000000000 39" by code_simp
  have e: "nat (PGSHIFT + 3 * 9) = 39" by (simp add: PGSHIFT_def)
  from n e have n': "\<not> sign_extended 0x800000000000 (nat (PGSHIFT + 3 * 9))" by simp
  from noncanonical_address_fails [OF h n'] h n show ?thesis by simp
qed

subsection \<open>A walk through interior nodes\<close>

lemma walk_done:
  "\<not> i < levels P \<Longrightarrow> walk P others mem base ptshift i = (TRANSLATE_FAIL, mem, [])"
  by (subst walk.simps) simp

lemma walk_pmp_fail:
  assumes a: "i < levels P"
    "\<not> (PGSHIFT + ptshift < 0 \<or> 64 \<le> PGSHIFT + ptshift \<or>
        ptidxbits P < 0 \<or> 31 \<le> ptidxbits P)"
    "pmp_enabled P \<and>
     \<not> pmp_hart_has_privs P (pte_address P base ptshift) 8 (push_bit 0 1) PRV_S"
  shows "walk P others mem base ptshift i = (TRANSLATE_PMP_FAIL, mem, [])"
  apply (subst walk.simps)
  apply (simp only: Let_def a if_True if_False not_not simp_thms)
  done

lemma walk_interior_step:
  assumes a: "i < levels P"
    "\<not> (PGSHIFT + ptshift < 0 \<or> 64 \<le> PGSHIFT + ptshift \<or>
        ptidxbits P < 0 \<or> 31 \<le> ptidxbits P)"
    "\<not> (pmp_enabled P \<and>
        \<not> pmp_hart_has_privs P (pte_address P base ptshift) 8 (push_bit 0 1) PRV_S)"
    and b: "interior_pte (mem (pte_address P base ptshift))"
  shows "walk P others mem base ptshift i =
     (case walk P others mem
        (push_bit (nat PGSHIFT) (drop_bit PTE_PPN_SHIFT (mem (pte_address P base ptshift))))
        (ptshift - ptidxbits P) (i + 1) of
        (ret, mem', loaded) \<Rightarrow>
          (ret, mem', (pte_address P base ptshift, mem (pte_address P base ptshift)) # loaded))"
proof -
  from b have c: "\<not> mem (pte_address P base ptshift) AND PTE_V = 0"
    "mem (pte_address P base ptshift) AND (PTE_R OR PTE_W OR PTE_X) = 0"
    by (simp_all add: interior_pte_def)
  show ?thesis
    apply (subst walk.simps)
    apply (simp only: Let_def a c if_True if_False not_not simp_thms)
    done
qed

lemma walk_head:
  assumes a: "i < levels P"
    "\<not> (PGSHIFT + ptshift < 0 \<or> 64 \<le> PGSHIFT + ptshift \<or>
        ptidxbits P < 0 \<or> 31 \<le> ptidxbits P)"
    "\<not> (pmp_enabled P \<and>
        \<not> pmp_hart_has_privs P (pte_address P base ptshift) 8 (push_bit 0 1) PRV_S)"
  shows "\<exists>ret mem' loaded. walk P others mem base ptshift i =
     (ret, mem', (pte_address P base ptshift, mem (pte_address P base ptshift)) # loaded)"
  apply (subst walk.simps)
  apply (simp only: Let_def a if_True if_False not_not simp_thms case_prod_beta)
  apply blast
  done

text \<open>
  A walk that starts level \<open>i\<close> with the shift of that level, is not stopped by the
  PMP and loads interior nodes only, runs through the remaining levels and fails.
\<close>

lemma walk_interior:
  assumes pb: "0 \<le> ptidxbits P" "ptidxbits P < 31"
    and top: "PGSHIFT + (levels P - 1) * ptidxbits P < 64"
  shows "0 \<le> i \<Longrightarrow> i \<le> levels P \<Longrightarrow> n = nat (levels P - i) \<Longrightarrow>
     ptshift = (levels P - 1 - i) * ptidxbits P \<Longrightarrow>
     walk P others mem base ptshift i = (r, mem', loaded) \<Longrightarrow>
     \<forall>(a, pte) \<in> set loaded. interior_pte pte \<Longrightarrow> r \<noteq> TRANSLATE_PMP_FAIL \<Longrightarrow>
     r = TRANSLATE_FAIL \<and> length loaded = n"
proof (induction n arbitrary: i base ptshift loaded)
  case 0
  then have "\<not> i < levels P" by simp
  from walk_done [OF this] 0 show ?case by simp
next
  case (Suc n)
  then have lt: "i < levels P" by simp
  have "(levels P - 1 - i) * ptidxbits P \<le> (levels P - 1) * ptidxbits P"
    using Suc.prems(1) pb(1) by (intro mult_right_mono) simp_all
  moreover have "0 \<le> (levels P - 1 - i) * ptidxbits P"
    using lt pb(1) by simp
  ultimately have sh: "\<not> (PGSHIFT + ptshift < 0 \<or> 64 \<le> PGSHIFT + ptshift \<or>
              ptidxbits P < 0 \<or> 31 \<le> ptidxbits P)"
    using top pb Suc.prems(4) by (simp add: PGSHIFT_def)
  let ?a = "pte_address P base ptshift"
  have pmp: "\<not> (pmp_enabled P \<and> \<not> pmp_hart_has_privs P ?a 8 (push_bit 0 1) PRV_S)"
  proof
    assume "pmp_enabled P \<and> \<not> pmp_hart_has_privs P ?a 8 (push_bit 0 1) PRV_S"
    from walk_pmp_fail [OF lt sh this] Suc.prems(5,7) show False by simp
  qed
  from walk_head [where mem = mem and others = others, OF lt sh pmp] Suc.prems(5)
  obtain l where l: "loaded = (?a, mem ?a) # l" by auto
  with Suc.prems(6) have int: "interior_pte (mem ?a)"
    and rest: "\<forall>(a, pte) \<in> set l. interior_pte pte"
    by simp_all
  let ?next = "walk P others mem (push_bit (nat PGSHIFT) (drop_bit PTE_PPN_SHIFT (mem ?a)))
                 (ptshift - ptidxbits P) (i + 1)"
  from walk_interior_step [where mem = mem and others = others, OF lt sh pmp int]
    Suc.prems(5) l
  have nx: "?next = (r, mem', l)"
    by (cases ?next) simp
  have "r = TRANSLATE_FAIL \<and> length l = n"
  proof (rule Suc.IH [OF _ _ _ _ nx rest Suc.prems(7)])
    show "0 \<le> i + 1" using Suc.prems(1) by simp
    show "i + 1 \<le> levels P" using lt by simp
    show "n = nat (levels P - (i + 1))" using Suc.prems(3) by simp
    show "ptshift - ptidxbits P = (levels P - 1 - (i + 1)) * ptidxbits P"
      using Suc.prems(4) by (simp add: algebra_simps)
  qed
  then show ?case by (simp add: l)
qed

text \<open>For a canonical address the translation is the walk from the root.\<close>

lemma canonical_walk:
  assumes mode: "effective_mode env acc mmu_idx \<noteq> uint PRV_M"
    and mmu: "riscv_feature env RISCV_FEATURE_MMU"
    and vm: "active_vm env = SV lv pbits psz"
    and vb: "PGSHIFT + lv * pbits = int (Suc n)"
    and n: "n < 64"
    and c: "sign_extended va (Suc n)"
  shows "\<exists>P base. levels P = lv \<and> ptidxbits P = pbits \<and>
           get_physical_address env pmp ram others mem va acc mmu_idx first_stage =
           walk P others mem base ((lv - 1) * pbits) 0"
proof -
  from sign_extended_msbs [OF n c]
  have key: "\<not> (drop_bit n va AND mask (64 - n) \<noteq> 0 \<and>
    drop_bit n va AND mask (64 - n) \<noteq> mask (64 - n))"
    by blast
  have e: "nat (int TARGET_LONG_BITS - (int (Suc n) - 1)) = 64 - n" "nat (int (Suc n) - 1) = n"
    using n by (simp_all add: TARGET_LONG_BITS_def)
  define P where "P = \<lparr>pmp_enabled = riscv_feature env RISCV_FEATURE_PMP,
                    pmp_hart_has_privs = pmp, is_ram = ram, addr = va,
                    access_type = acc, mode = effective_mode env acc mmu_idx,
                    sum_flag = (if priv_ver env \<ge> PRIV_VERSION_1_10_0
                        then get_field (mstatus env) MSTATUS_SUM \<noteq> 0
                        else get_field (mstatus env) MSTATUS_PUM = 0),
                    mxr = (get_field (mstatus env) MSTATUS_MXR \<noteq> 0),
                    levels = lv, ptidxbits = pbits, ptesize = psz\<rparr>"
  define base where "base = (if priv_ver env \<ge> PRIV_VERSION_1_10_0
                    then push_bit (nat PGSHIFT) (get_field (satp env) SATP_PPN)
                    else push_bit (nat PGSHIFT) (sptbr env))"
  have w: "get_physical_address env pmp ram others mem va acc mmu_idx first_stage =
      walk P others mem base ((lv - 1) * pbits) 0"
    unfolding get_physical_address_def Let_def P_def base_def
    by (simp only: mode mmu vm vb e push_bit_1_minus_1 key vm_switch.case if_False if_True
        not_True_eq_False simp_thms)
  have "levels P = lv" "ptidxbits P = pbits" by (simp_all add: P_def)
  with w show ?thesis by blast
qed

text \<open>
  C10. In a translation that walks the page table (effective mode other than M, MMU
  present, an Sv mode active, canonical address), when the PMP does not stop the walk
  and every page-table entry it loads is an interior node (valid, R = W = X = 0), the
  result is Fail and exactly \<open>levels\<close> entries have been loaded: the walk does not
  follow the pointer of the deepest level.
\<close>

theorem interior_walk_fails:
  assumes mode: "effective_mode env acc mmu_idx \<noteq> uint PRV_M"
    and mmu: "riscv_feature env RISCV_FEATURE_MMU"
    and vm: "active_vm env = SV lv pbits psz"
    and c: "sign_extended va (nat (PGSHIFT + lv * pbits))"
    and res: "get_physical_address env pmp ram others mem va acc mmu_idx first_stage =
               (r, mem', loaded)"
    and int: "\<forall>(a, pte) \<in> set loaded. interior_pte pte"
    and np: "r \<noteq> TRANSLATE_PMP_FAIL"
  shows "r = TRANSLATE_FAIL \<and> int (length loaded) = lv"
proof -
  from active_vm_SV [OF vm] obtain n where
    n: "PGSHIFT + lv * pbits = int (Suc n)" "n < 64" and
    pb: "0 \<le> pbits" "pbits < 31" "PGSHIFT + (lv - 1) * pbits < 64" "0 \<le> lv"
    by (auto simp add: PGSHIFT_def intro: that [of 31] that [of 38] that [of 47] that [of 56])
  have "nat (int (Suc n)) = Suc n" by (rule nat_int)
  with c n(1) have c': "sign_extended va (Suc n)" by (simp only:)
  from canonical_walk [OF mode mmu vm n c', of pmp ram others mem first_stage]
  obtain P base where P: "levels P = lv" "ptidxbits P = pbits"
    and w: "get_physical_address env pmp ram others mem va acc mmu_idx first_stage =
           walk P others mem base ((lv - 1) * pbits) 0"
    by blast
  from w res have w': "walk P others mem base ((lv - 1) * pbits) 0 = (r, mem', loaded)"
    by simp
  have "r = TRANSLATE_FAIL \<and> length loaded = nat (levels P - 0)"
    by (rule walk_interior [OF _ _ _ _ _ refl _ w' int np]) (use pb P in simp_all)
  with pb(4) P show ?thesis by simp
qed

theorem interior_walk_fails_witness:
  "fst (get_physical_address sv39_state pmp_allow all_ram [] all_interior_mem 0x1000
          MMU_DATA_LOAD (uint PRV_S) True) = TRANSLATE_FAIL \<and>
   length (snd (snd (get_physical_address sv39_state pmp_allow all_ram [] all_interior_mem
          0x1000 MMU_DATA_LOAD (uint PRV_S) True))) = 3"
proof -
  let ?g = "get_physical_address sv39_state pmp_allow all_ram [] all_interior_mem 0x1000
          MMU_DATA_LOAD (uint PRV_S) True"
  have h: "effective_mode sv39_state MMU_DATA_LOAD (uint PRV_S) \<noteq> uint PRV_M"
    "riscv_feature sv39_state RISCV_FEATURE_MMU"
    "active_vm sv39_state = SV 3 9 8"
    by code_simp+
  have s: "sign_extended 0x1000 39" by code_simp
  have e: "nat (PGSHIFT + 3 * 9) = 39" by (simp add: PGSHIFT_def)
  from s e have s': "sign_extended 0x1000 (nat (PGSHIFT + 3 * 9))" by simp
  have r: "?g = (fst ?g, fst (snd ?g), snd (snd ?g))" by simp
  have i: "\<forall>(a, pte) \<in> set (snd (snd ?g)). interior_pte pte" by code_simp
  have p: "fst ?g \<noteq> TRANSLATE_PMP_FAIL" by code_simp
  from interior_walk_fails [OF h s' r i p] show ?thesis by simp
qed

end
